theory Spec2Isabelle
  imports Main "HOL-Library.Sublist"
begin

section \<open>Strings and the standard library\<close>

text \<open>
  A Python \<open>str\<close> is a sequence of Unicode code points, and \<open>len\<close>, slicing and the
  \<open>re\<close> module count code points. A string is therefore a list of code points (natural
  numbers); \<open>ascii\<close> turns a literal into one.
\<close>

type_synonym ustr = "nat list"

definition ascii :: "string \<Rightarrow> ustr" where
  "ascii s = map of_char s"

text \<open>
  A value of the JSON that the endpoints answer with, as \<open>json.loads\<close> hands it to the
  program: \<open>None\<close>, a \<open>bool\<close>, an \<open>int\<close>, a \<open>float\<close>, a \<open>str\<close>, a \<open>list\<close> or a \<open>dict\<close>. A
  float is given by the text that \<open>str\<close> prints for it, which is all the program can see
  of it. In an object a key that is repeated keeps its last value.
\<close>

datatype json =
    JNull
  | JBool bool
  | JInt int
  | JFloat ustr
  | JStr ustr
  | JArr "json list"
  | JObj "(ustr \<times> json) list"

fun truthy :: "json \<Rightarrow> bool" where
  \<comment> \<open>\<open>bool(v)\<close>, as \<open>not\<close>, \<open>or\<close> and \<open>if\<close> read a value\<close>
  "truthy JNull = False"
| "truthy (JBool b) = b"
| "truthy (JInt n) = (n \<noteq> 0)"
| "truthy (JFloat r) = (r \<noteq> ascii ''0.0'' \<and> r \<noteq> ascii ''-0.0'')"
| "truthy (JStr s) = (s \<noteq> [])"
| "truthy (JArr vs) = (vs \<noteq> [])"
| "truthy (JObj kvs) = (kvs \<noteq> [])"

datatype error =
    IndexError        \<comment> \<open>\<open>[0]\<close> on an empty list\<close>
  | ValueError        \<comment> \<open>\<open>int\<close> on a decimal string longer than the interpreter allows\<close>
  | TypeError         \<comment> \<open>\<open>re.sub\<close> on a value that is no string\<close>
  | AttributeError    \<comment> \<open>\<open>.get\<close> on a value that is no \<open>dict\<close>\<close>
  | HTTPError         \<comment> \<open>any exception that leaves \<open>_http_get_json\<close> after its retries\<close>

text \<open>
  \<open>yc_search.py\<close> calls pieces of CPython that consult tables or settings which are not
  part of the repository: \<open>str.lower\<close> and \<open>str.isalnum\<close> (the Unicode character database),
  \<open>html.entities.html5\<close> (2231 named character references), \<open>int\<close> applied to a string,
  \<open>str\<close> applied to a list or a dict, and the longest decimal string that \<open>int\<close> converts
  (\<open>sys.get_int_max_str_digits()\<close>: 4300 unless configured otherwise, 0 for no bound; an
  interpreter without the setting behaves as with 0). On ASCII the behaviour of the first
  two is fixed and written out below; everything else is a parameter of the model, so that
  every theorem holds whatever the tables and the setting are.
\<close>

record pylib =
  lower_hi :: "ustr \<Rightarrow> ustr"            \<comment> \<open>\<open>str.lower\<close> of a string that is not pure ASCII\<close>
  isalnum_hi :: "nat \<Rightarrow> bool"           \<comment> \<open>\<open>str.isalnum\<close> of a code point from 128 on\<close>
  html5 :: "ustr \<Rightarrow> ustr option"        \<comment> \<open>\<open>html.entities.html5\<close>\<close>
  int_of_str :: "ustr \<Rightarrow> int option"    \<comment> \<open>\<open>int(s)\<close>; \<open>None\<close> is \<open>ValueError\<close>\<close>
  str_container :: "json \<Rightarrow> ustr"       \<comment> \<open>\<open>str(v)\<close> of a list or a dict\<close>
  max_str_digits :: nat                \<comment> \<open>\<open>sys.get_int_max_str_digits()\<close>\<close>

definition ascii_lower :: "nat \<Rightarrow> nat" where
  "ascii_lower c = (if 65 \<le> c \<and> c \<le> 90 then c + 32 else c)"

definition lower :: "pylib \<Rightarrow> ustr \<Rightarrow> ustr" where
  \<comment> \<open>\<open>s.lower()\<close>\<close>
  "lower L s = (if list_all (\<lambda>c. c < 128) s then map ascii_lower s else lower_hi L s)"

definition is_space :: "nat \<Rightarrow> bool" where
  \<comment> \<open>\<open>str.isspace\<close> of one code point; the class \<open>\s\<close> of \<open>re\<close> and the characters
      \<open>str.strip()\<close> removes are the same set\<close>
  "is_space c \<longleftrightarrow>
     (9 \<le> c \<and> c \<le> 13) \<or> (28 \<le> c \<and> c \<le> 32) \<or> c = 0x85 \<or> c = 0xA0 \<or> c = 0x1680
     \<or> (0x2000 \<le> c \<and> c \<le> 0x200A) \<or> c = 0x2028 \<or> c = 0x2029 \<or> c = 0x202F
     \<or> c = 0x205F \<or> c = 0x3000"

definition is_word :: "pylib \<Rightarrow> nat \<Rightarrow> bool" where
  \<comment> \<open>the class \<open>\w\<close> of \<open>re\<close> on \<open>str\<close> patterns: alphanumeric or the underscore\<close>
  "is_word L c \<longleftrightarrow>
     c = 95 \<or>
     (if c < 128 then (48 \<le> c \<and> c \<le> 57) \<or> (65 \<le> c \<and> c \<le> 90) \<or> (97 \<le> c \<and> c \<le> 122)
      else isalnum_hi L c)"

definition strip :: "ustr \<Rightarrow> ustr" where
  \<comment> \<open>\<open>s.strip()\<close>\<close>
  "strip s = rev (dropWhile is_space (rev (dropWhile is_space s)))"

fun str_in :: "ustr \<Rightarrow> ustr \<Rightarrow> bool" where
  \<comment> \<open>\<open>p in t\<close> on strings: \<open>p\<close> occurs in \<open>t\<close> as a contiguous substring\<close>
  "str_in p [] = (p = [])"
| "str_in p (c # cs) = (prefix p (c # cs) \<or> str_in p cs)"

section \<open>Text normalizer: \<open>_strip_html\<close>\<close>

text \<open>
  \<open>re.sub(r"<[^>]+>", " ", text)\<close>: scanning from the left, a \<open><\<close> followed by at least
  one character other than \<open>>\<close> and then a \<open>>\<close> is replaced by one space, up to and
  including the first \<open>>\<close> after it; the scan goes on behind the match.
\<close>

function sub_tags :: "ustr \<Rightarrow> ustr" where
  "sub_tags [] = []"
| "sub_tags (c # cs) =
     (if c = 60 \<and> takeWhile (\<lambda>x. x \<noteq> 62) cs \<noteq> [] \<and> dropWhile (\<lambda>x. x \<noteq> 62) cs \<noteq> []
      then 32 # sub_tags (tl (dropWhile (\<lambda>x. x \<noteq> 62) cs))
      else c # sub_tags cs)"
  by pat_completeness auto
termination
proof (relation "measure length")
  fix c :: nat and cs :: ustr
  have "length (tl (dropWhile (\<lambda>x. x \<noteq> 62) cs)) \<le> length cs"
    using length_dropWhile_le [of "\<lambda>x. x \<noteq> 62" cs] by simp
  then show "(tl (dropWhile (\<lambda>x. x \<noteq> 62) cs), c # cs) \<in> measure length"
    by simp
qed simp_all

text \<open>
  \<open>html.unescape\<close>. The pattern \<open>_charref\<close> is
  \<open>&(#[0-9]+;?|#[xX][0-9a-fA-F]+;?|[^\t\n\f <&#;]{1,32};?)\<close>; \<open>charref_group\<close> is its
  group when it matches right behind an ampersand. Each repetition is greedy and is
  followed only by an optional semicolon, so the first alternative that starts never
  backtracks. \<open>int\<close> refuses a decimal string with more digits than the interpreter allows
  (leading zeros count) and raises \<open>ValueError\<close>; a hexadecimal string has no such bound.
  \<open>re.sub\<close> calls \<open>_replace_charref\<close> match by match from the left, so the first reference
  that is too long ends the call.
\<close>

definition is_digit :: "nat \<Rightarrow> bool" where
  "is_digit c \<longleftrightarrow> 48 \<le> c \<and> c \<le> 57"

definition is_hexdigit :: "nat \<Rightarrow> bool" where
  "is_hexdigit c \<longleftrightarrow> is_digit c \<or> (65 \<le> c \<and> c \<le> 70) \<or> (97 \<le> c \<and> c \<le> 102)"

definition is_name_char :: "nat \<Rightarrow> bool" where
  \<comment> \<open>\<open>[^\t\n\f <&#;]\<close>\<close>
  "is_name_char c \<longleftrightarrow> c \<notin> {9, 10, 12, 32, 60, 38, 35, 59}"

definition opt_semi :: "ustr \<Rightarrow> ustr" where
  \<comment> \<open>\<open>;?\<close> at the head of the rest\<close>
  "opt_semi r = (case r of c # _ \<Rightarrow> if c = 59 then [59] else [] | [] \<Rightarrow> [])"

definition charref_group :: "ustr \<Rightarrow> ustr option" where
  "charref_group r =
     (case r of
        [] \<Rightarrow> None
      | c # r1 \<Rightarrow>
          if c = 35 then
            (let ds = takeWhile is_digit r1 in
             if ds \<noteq> [] then Some (35 # ds @ opt_semi (drop (length ds) r1))
             else (case r1 of
                     [] \<Rightarrow> None
                   | x # r2 \<Rightarrow>
                       let hs = takeWhile is_hexdigit r2 in
                       if (x = 120 \<or> x = 88) \<and> hs \<noteq> []
                       then Some (35 # x # hs @ opt_semi (drop (length hs) r2))
                       else None))
          else
            (let nm = take 32 (takeWhile is_name_char r) in
             if nm \<noteq> [] then Some (nm @ opt_semi (drop (length nm) r)) else None))"

definition digit_val :: "nat \<Rightarrow> nat" where
  "digit_val c = (if is_digit c then c - 48 else if 97 \<le> c then c - 87 else c - 55)"

definition int_base :: "nat \<Rightarrow> ustr \<Rightarrow> nat" where
  \<comment> \<open>\<open>int(ds, base)\<close> on a string of digits of that base\<close>
  "int_base b ds = foldl (\<lambda>v d. v * b + digit_val d) 0 ds"

definition rstrip_semi :: "ustr \<Rightarrow> ustr" where
  \<comment> \<open>\<open>s.rstrip(';')\<close>\<close>
  "rstrip_semi s = rev (dropWhile (\<lambda>c. c = 59) (rev s))"

definition invalid_charrefs :: "(nat \<times> nat) list" where
  "invalid_charrefs =
     [(0x00, 0xFFFD), (0x0D, 0x0D), (0x80, 0x20AC), (0x81, 0x81), (0x82, 0x201A),
      (0x83, 0x0192), (0x84, 0x201E), (0x85, 0x2026), (0x86, 0x2020), (0x87, 0x2021),
      (0x88, 0x02C6), (0x89, 0x2030), (0x8A, 0x0160), (0x8B, 0x2039), (0x8C, 0x0152),
      (0x8D, 0x8D), (0x8E, 0x017D), (0x8F, 0x8F), (0x90, 0x90), (0x91, 0x2018),
      (0x92, 0x2019), (0x93, 0x201C), (0x94, 0x201D), (0x95, 0x2022), (0x96, 0x2013),
      (0x97, 0x2014), (0x98, 0x02DC), (0x99, 0x2122), (0x9A, 0x0161), (0x9B, 0x203A),
      (0x9C, 0x0153), (0x9D, 0x9D), (0x9E, 0x017E), (0x9F, 0x0178)]"

definition invalid_codepoint :: "nat \<Rightarrow> bool" where
  \<comment> \<open>membership in \<open>_invalid_codepoints\<close>\<close>
  "invalid_codepoint n \<longleftrightarrow>
     (0x1 \<le> n \<and> n \<le> 0x8) \<or> (0xE \<le> n \<and> n \<le> 0x1F) \<or> (0x7F \<le> n \<and> n \<le> 0x9F)
     \<or> (0xFDD0 \<le> n \<and> n \<le> 0xFDEF) \<or> n = 0xB
     \<or> (n \<le> 0x10FFFF \<and> (n mod 0x10000 = 0xFFFE \<or> n mod 0x10000 = 0xFFFF))"

definition numeric_charref :: "nat \<Rightarrow> ustr" where
  "numeric_charref num =
     (case map_of invalid_charrefs num of
        Some c \<Rightarrow> [c]
      | None \<Rightarrow>
          if (0xD800 \<le> num \<and> num \<le> 0xDFFF) \<or> num > 0x10FFFF then [0xFFFD]
          else if invalid_codepoint num then []
          else [num])"

fun longest_name :: "pylib \<Rightarrow> ustr \<Rightarrow> nat \<Rightarrow> ustr" where
  \<comment> \<open>\<open>for x in range(len(s)-1, 1, -1): ... else: return '&' + s\<close>, entered at \<open>x\<close>\<close>
  "longest_name L s 0 = 38 # s"
| "longest_name L s (Suc x) =
     (if Suc x \<le> 1 then 38 # s
      else (case html5 L (take (Suc x) s) of
              Some v \<Rightarrow> v @ drop (Suc x) s
            | None \<Rightarrow> longest_name L s x))"

definition int_decimal :: "pylib \<Rightarrow> ustr \<Rightarrow> error + nat" where
  \<comment> \<open>\<open>int(ds)\<close> on a string of decimal digits\<close>
  "int_decimal L ds =
     (if 0 < max_str_digits L \<and> max_str_digits L < length ds then Inl ValueError
      else Inr (int_base 10 ds))"

definition replace_charref :: "pylib \<Rightarrow> ustr \<Rightarrow> error + ustr" where
  \<comment> \<open>\<open>_replace_charref\<close>, applied to the group of a match: the group is never empty, and
      has a second character when it starts with \<open>#\<close> (\<open>charref_group_shape\<close> below), so
      that \<open>s[0]\<close> and \<open>s[1]\<close> are there\<close>
  "replace_charref L s =
     (if take 1 s = [35] then
        (if take 1 (drop 1 s) = [120] \<or> take 1 (drop 1 s) = [88]
         then Inr (numeric_charref (int_base 16 (rstrip_semi (drop 2 s))))
         else (case int_decimal L (rstrip_semi (drop 1 s)) of
                 Inl e \<Rightarrow> Inl e
               | Inr num \<Rightarrow> Inr (numeric_charref num)))
      else (case html5 L s of
              Some v \<Rightarrow> Inr v
            | None \<Rightarrow> Inr (longest_name L s (length s - 1))))"

fun sub_charref :: "pylib \<Rightarrow> ustr \<Rightarrow> error + ustr" where
  \<comment> \<open>\<open>_charref.sub(_replace_charref, s)\<close>\<close>
  "sub_charref L [] = Inr []"
| "sub_charref L (c # cs) =
     (case (if c = 38 then charref_group cs else None) of
        Some g \<Rightarrow>
          (case replace_charref L g of
             Inl e \<Rightarrow> Inl e
           | Inr r \<Rightarrow>
               (case sub_charref L (drop (length g) cs) of
                  Inl e \<Rightarrow> Inl e
                | Inr t \<Rightarrow> Inr (r @ t)))
      | None \<Rightarrow>
          (case sub_charref L cs of
             Inl e \<Rightarrow> Inl e
           | Inr t \<Rightarrow> Inr (c # t)))"

definition unescape :: "pylib \<Rightarrow> ustr \<Rightarrow> error + ustr" where
  "unescape L s = (if 38 \<notin> set s then Inr s else sub_charref L s)"

function sub_spaces :: "ustr \<Rightarrow> ustr" where
  \<comment> \<open>\<open>re.sub(r"\s+", " ", text)\<close>\<close>
  "sub_spaces [] = []"
| "sub_spaces (c # cs) =
     (if is_space c then 32 # sub_spaces (dropWhile is_space cs) else c # sub_spaces cs)"
  by pat_completeness auto
termination
proof (relation "measure length")
  fix c :: nat and cs :: ustr
  show "(dropWhile is_space cs, c # cs) \<in> measure length"
    using length_dropWhile_le [of is_space cs] by simp
qed simp_all

definition strip_html :: "pylib \<Rightarrow> ustr \<Rightarrow> error + ustr" where
  "strip_html L text =
     (case unescape L (sub_tags text) of
        Inl e \<Rightarrow> Inl e
      | Inr t \<Rightarrow> Inr (strip (sub_spaces t)))"

section \<open>Field extractor\<close>

fun first_sentence :: "ustr \<Rightarrow> ustr" where
  \<comment> \<open>\<open>text.split(". ")[0]\<close>: the text before the first full stop followed by a space\<close>
  "first_sentence [] = []"
| "first_sentence (c # cs) = (if prefix [46, 32] (c # cs) then [] else c # first_sentence cs)"

definition is_linebreak :: "nat \<Rightarrow> bool" where
  \<comment> \<open>the line boundaries of \<open>str.splitlines\<close>\<close>
  "is_linebreak c \<longleftrightarrow>
     (10 \<le> c \<and> c \<le> 13) \<or> (28 \<le> c \<and> c \<le> 30) \<or> c = 0x85 \<or> c = 0x2028 \<or> c = 0x2029"

definition first_line :: "ustr \<Rightarrow> error + ustr" where
  \<comment> \<open>\<open>s.splitlines()[0]\<close>: \<open>"".splitlines()\<close> is the empty list\<close>
  "first_line s = (if s = [] then Inl IndexError else Inr (takeWhile (\<lambda>c. \<not> is_linebreak c) s))"

definition is_dash :: "nat \<Rightarrow> bool" where
  \<comment> \<open>the separators of the first pattern: hyphen, colon, en dash (U+2013), em dash
      (U+2014)\<close>
  "is_dash c \<longleftrightarrow> c = 45 \<or> c = 58 \<or> c = 0x2013 \<or> c = 0x2014"

text \<open>
  The two patterns are matched against \<open>first\<close>, which holds no line feed, so that \<open>.\<close>
  matches each of its characters and \<open>$\<close> is its end.

  \<open>^\s*([^-:\<dots>]+)[-:\<dots>]\s*(.+)$\<close>: neither \<open>\s*\<close> nor the first group can pass a dash,
  so the dash matched is the first one of the line, at index \<open>i\<close>; the group before it needs
  one character (\<open>\s*\<close> gives it back if the line is blank up to the dash) and the group
  behind it needs one as well (the second \<open>\s*\<close> gives back its last character if nothing
  else follows).
\<close>

definition rule_a :: "ustr \<Rightarrow> (ustr \<times> ustr) option" where
  "rule_a first =
     (let i = length (takeWhile (\<lambda>c. \<not> is_dash c) first) in
      if 1 \<le> i \<and> i + 1 < length first then
        (let j = min (length (takeWhile is_space first)) (i - 1);
             rest = drop (i + 1) first;
             k = min (length (takeWhile is_space rest)) (length rest - 1)
         in Some (drop j (take i first), drop k rest))
      else None)"

text \<open>
  \<open>^\s*([^()]+)\s*\(([^)]+)\)\s*(.*)$\<close>: the first parenthesis of the line, at index \<open>i\<close>,
  must be an opening one with a character before it; the second group runs to the first
  closing parenthesis behind it and must not be empty; the third group is what follows,
  without its leading white space.
\<close>

definition is_paren :: "nat \<Rightarrow> bool" where
  "is_paren c \<longleftrightarrow> c = 40 \<or> c = 41"

definition rule_b :: "ustr \<Rightarrow> (ustr \<times> ustr \<times> ustr) option" where
  "rule_b first =
     (let i = length (takeWhile (\<lambda>c. \<not> is_paren c) first) in
      if 1 \<le> i \<and> take 1 (drop i first) = [40] then
        (let j = min (length (takeWhile is_space first)) (i - 1);
             after = drop (i + 1) first;
             body = takeWhile (\<lambda>c. c \<noteq> 41) after;
             tail = dropWhile (\<lambda>c. c \<noteq> 41) after
         in if body \<noteq> [] \<and> tail \<noteq> []
            then Some (drop j (take i first), body, dropWhile is_space (tl tail))
            else None)
      else None)"

fun split_on :: "(nat \<Rightarrow> bool) \<Rightarrow> ustr \<Rightarrow> ustr list" where
  \<comment> \<open>\<open>re.split\<close> on a pattern that matches single characters\<close>
  "split_on P [] = [[]]"
| "split_on P (c # cs) =
     (if P c then [] # split_on P cs
      else (case split_on P cs of p # ps \<Rightarrow> (c # p) # ps | [] \<Rightarrow> [[c]]))"

definition extract_company_and_title :: "ustr \<Rightarrow> error + (ustr \<times> ustr)" where
  "extract_company_and_title text =
     (if text = [] then Inr ([], [])
      else
        (case first_line (first_sentence text) of
           Inl e \<Rightarrow> Inl e
         | Inr first \<Rightarrow>
             (case rule_a first of
                Some (g1, g2) \<Rightarrow> Inr (take 80 (strip g1), take 120 (strip g2))
              | None \<Rightarrow>
                  (case rule_b first of
                     Some (g1, g2, g3) \<Rightarrow>
                       (let company = take 80 (strip g1); rest = strip g3
                        in Inr (company, take 120 (if rest \<noteq> [] then rest else first)))
                   | None \<Rightarrow>
                       (let parts = filter (\<lambda>p. p \<noteq> [])
                                      (map strip (split_on (\<lambda>c. c = 44 \<or> c = 124) first))
                        in if 2 \<le> length parts
                           then Inr (take 80 (parts ! 0), take 120 (parts ! 1))
                           else Inr ([], take 120 first))))))"

text \<open>
  \<open>re.search(rf"\b{re.escape(key)}\b", t)\<close>. At a position of the text, \<open>\b\<close> holds when
  exactly one of the characters around it is a word character; the start and the end of
  the text count as no word character. \<open>search_word\<close> tries every position from the left,
  \<open>prev\<close> being the character before the position.
\<close>

definition head :: "ustr \<Rightarrow> nat option" where
  "head t = (case t of [] \<Rightarrow> None | c # _ \<Rightarrow> Some c)"

definition boundary :: "pylib \<Rightarrow> nat option \<Rightarrow> nat option \<Rightarrow> bool" where
  "boundary L prev nxt \<longleftrightarrow>
     (case prev of None \<Rightarrow> False | Some c \<Rightarrow> is_word L c)
       \<noteq> (case nxt of None \<Rightarrow> False | Some c \<Rightarrow> is_word L c)"

definition match_word :: "pylib \<Rightarrow> ustr \<Rightarrow> nat option \<Rightarrow> ustr \<Rightarrow> bool" where
  "match_word L key prev t \<longleftrightarrow>
     boundary L prev (head t) \<and> prefix key t
     \<and> boundary L (if key = [] then prev else Some (last key)) (head (drop (length key) t))"

fun search_word :: "pylib \<Rightarrow> ustr \<Rightarrow> nat option \<Rightarrow> ustr \<Rightarrow> bool" where
  "search_word L key prev [] = match_word L key prev []"
| "search_word L key prev (c # cs) =
     (match_word L key prev (c # cs) \<or> search_word L key (Some c) cs)"

definition cities :: "(ustr \<times> ustr) list" where
  "cities =
     [(ascii ''san francisco'', ascii ''San Francisco''),
      (ascii ''sf'', ascii ''San Francisco''),
      (ascii ''new york'', ascii ''New York''),
      (ascii ''nyc'', ascii ''New York''),
      (ascii ''seattle'', ascii ''Seattle''),
      (ascii ''austin'', ascii ''Austin''),
      (ascii ''boston'', ascii ''Boston''),
      (ascii ''london'', ascii ''London''),
      (ascii ''berlin'', ascii ''Berlin''),
      (ascii ''toronto'', ascii ''Toronto'')]"

fun first_city :: "pylib \<Rightarrow> ustr \<Rightarrow> (ustr \<times> ustr) list \<Rightarrow> ustr" where
  \<comment> \<open>\<open>for key, proper in cities: if re.search(...): return proper\<close>, then \<open>return ""\<close>\<close>
  "first_city L t [] = []"
| "first_city L t ((key, proper) # rest) =
     (if search_word L key None t then proper else first_city L t rest)"

definition extract_location :: "pylib \<Rightarrow> ustr \<Rightarrow> ustr" where
  "extract_location L text =
     (let t = lower L text
      in if str_in (ascii ''remote'') t then ascii ''Remote'' else first_city L t cities)"

section \<open>Filters\<close>

definition matches_terms :: "pylib \<Rightarrow> ustr \<Rightarrow> ustr list \<Rightarrow> bool" where
  "matches_terms L text terms =
     (if terms = [] then True
      else (let t = lower L text in list_all (\<lambda>term. str_in (lower L term) t) terms))"

definition matches_location :: "pylib \<Rightarrow> ustr \<Rightarrow> ustr option \<Rightarrow> bool" where
  \<comment> \<open>\<open>not location\<close> holds of \<open>None\<close> and of the empty string\<close>
  "matches_location L text location =
     (case location of
        None \<Rightarrow> True
      | Some l \<Rightarrow>
          if l = [] then True
          else (let loc = lower L (strip l); t = lower L text
                in if loc = ascii ''remote'' then str_in (ascii ''remote'') t else str_in loc t))"

section \<open>Data model\<close>

text \<open>
  A reply node of the item endpoint is a JSON value; the program reads its \<open>type\<close>, \<open>id\<close>,
  \<open>text\<close> and \<open>author\<close> with \<open>c.get\<close>, which gives \<open>None\<close> for a key that is missing and
  exists on a \<open>dict\<close> only. A hit of the search endpoints carries \<open>title\<close> and \<open>objectID\<close>,
  both strings or missing; hits of other shapes are outside the model.
\<close>

definition field :: "json \<Rightarrow> ustr \<Rightarrow> json" where
  \<comment> \<open>\<open>c.get(k)\<close> for a \<open>dict\<close> \<open>c\<close>\<close>
  "field c k =
     (case c of
        JObj kvs \<Rightarrow> (case map_of (rev kvs) k of None \<Rightarrow> JNull | Some v \<Rightarrow> v)
      | _ \<Rightarrow> JNull)"

definition get :: "json \<Rightarrow> ustr \<Rightarrow> error + json" where
  \<comment> \<open>\<open>c.get(k)\<close> for any value \<open>c\<close>\<close>
  "get c k = (case c of JObj kvs \<Rightarrow> Inr (field c k) | _ \<Rightarrow> Inl AttributeError)"

record hit =
  h_title :: "ustr option"
  h_objectID :: "ustr option"

record posting =
  p_id :: ustr
  p_source :: ustr
  p_title :: ustr
  p_company :: json      \<comment> \<open>a string, or the \<open>author\<close> of the node as it came\<close>
  p_location :: ustr
  p_description :: ustr
  p_url :: ustr

text \<open>
  The network, as one invocation sees it: what each call of \<open>_http_get_json\<close> ends in
  once its retries are over (the retry loop itself is not modelled), with
  \<open>data.get("hits", [])\<close> and \<open>data.get("children", []) or []\<close> already taken from the
  answer.
\<close>

record world =
  dated_search :: "error + hit list"                    \<comment> \<open>\<open>search_by_date\<close>, author-restricted\<close>
  fallback_search :: "error + hit list"                 \<comment> \<open>\<open>search\<close>, stories only\<close>
  item_children :: "int \<Rightarrow> error + json list"          \<comment> \<open>\<open>items/{id}\<close>\<close>

section \<open>Thread locator\<close>

text \<open>
  \<open>re.compile(r"ask hn:\s*who is hiring\?", re.IGNORECASE).search(title)\<close>. Under
  \<open>IGNORECASE\<close> a letter of this pattern matches its two ASCII cases, and besides them
  \<open>s\<close> matches U+017F, \<open>k\<close> matches U+212A and \<open>i\<close> matches U+0130 and U+0131; every other
  character of the pattern matches itself only.
\<close>

definition ci_eq :: "nat \<Rightarrow> nat \<Rightarrow> bool" where
  \<comment> \<open>the character \<open>c\<close> of the text against the character \<open>p\<close> of the pattern\<close>
  "ci_eq c p \<longleftrightarrow>
     c = p \<or> (97 \<le> p \<and> p \<le> 122 \<and> c + 32 = p) \<or> (p = 115 \<and> c = 0x17F)
     \<or> (p = 107 \<and> c = 0x212A) \<or> (p = 105 \<and> (c = 0x130 \<or> c = 0x131))"

fun ci_prefix :: "ustr \<Rightarrow> ustr \<Rightarrow> ustr option" where
  \<comment> \<open>a literal piece of the pattern at the head of the text: what is left behind it\<close>
  "ci_prefix [] t = Some t"
| "ci_prefix (p # ps) [] = None"
| "ci_prefix (p # ps) (c # cs) = (if ci_eq c p then ci_prefix ps cs else None)"

definition pat_at :: "ustr \<Rightarrow> bool" where
  "pat_at t =
     (case ci_prefix (ascii ''ask hn:'') t of
        None \<Rightarrow> False
      | Some r \<Rightarrow> ci_prefix (ascii ''who is hiring?'') (dropWhile is_space r) \<noteq> None)"

fun pat_search :: "ustr \<Rightarrow> bool" where
  "pat_search [] = pat_at []"
| "pat_search (c # cs) = (pat_at (c # cs) \<or> pat_search cs)"

definition object_id :: "pylib \<Rightarrow> hit \<Rightarrow> int option" where
  \<comment> \<open>\<open>int(h.get("objectID"))\<close>; \<open>None\<close> when it raises (\<open>int(None)\<close> is a \<open>TypeError\<close>)\<close>
  "object_id L h = (case h_objectID h of None \<Rightarrow> None | Some s \<Rightarrow> int_of_str L s)"

fun first_titled :: "pylib \<Rightarrow> hit list \<Rightarrow> int option" where
  \<comment> \<open>the loop over the hits: a titled hit whose identifier does not parse is passed over\<close>
  "first_titled L [] = None"
| "first_titled L (h # hs) =
     (if pat_search (case h_title h of None \<Rightarrow> [] | Some t \<Rightarrow> t)
      then (case object_id L h of Some n \<Rightarrow> Some n | None \<Rightarrow> first_titled L hs)
      else first_titled L hs)"

definition pick_story :: "pylib \<Rightarrow> hit list \<Rightarrow> int option" where
  "pick_story L hits =
     (case first_titled L hits of
        Some n \<Rightarrow> Some n
      | None \<Rightarrow> (case hits of [] \<Rightarrow> None | h # _ \<Rightarrow> object_id L h))"

definition latest_who_is_hiring_story_id :: "pylib \<Rightarrow> world \<Rightarrow> error + int option" where
  "latest_who_is_hiring_story_id L w =
     (case dated_search w of
        Inr hits \<Rightarrow> Inr (pick_story L hits)
      | Inl _ \<Rightarrow>
          (case fallback_search w of
             Inl e \<Rightarrow> Inl e
           | Inr hits \<Rightarrow> Inr (pick_story L hits)))"

definition fetch_thread_comments :: "world \<Rightarrow> int \<Rightarrow> error + json list" where
  "fetch_thread_comments w story_id = item_children w story_id"

section \<open>Search pipeline\<close>

function digits :: "nat \<Rightarrow> ustr" where
  "digits n = (if n < 10 then [48 + n] else digits (n div 10) @ [48 + n mod 10])"
  by pat_completeness auto
termination
  by (relation "measure id") auto

declare digits.simps [simp del]

definition str_int :: "int \<Rightarrow> ustr" where
  \<comment> \<open>\<open>str(i)\<close> of an integer\<close>
  "str_int i = (if i < 0 then 45 # digits (nat (- i)) else digits (nat i))"

definition format_id :: "pylib \<Rightarrow> json \<Rightarrow> ustr" where
  \<comment> \<open>\<open>c_id\<close> as \<open>f"{c_id}"\<close> and \<open>str.format\<close> print it: \<open>str(c_id)\<close>. An integer that
      \<open>json.loads\<close> has parsed is short enough for \<open>str\<close> to print.\<close>
  "format_id L v =
     (case v of
        JNull \<Rightarrow> ascii ''None''
      | JBool b \<Rightarrow> (if b then ascii ''True'' else ascii ''False'')
      | JInt n \<Rightarrow> str_int n
      | JFloat r \<Rightarrow> r
      | JStr s \<Rightarrow> s
      | JArr vs \<Rightarrow> str_container L v
      | JObj kvs \<Rightarrow> str_container L v)"

definition comment_text :: "pylib \<Rightarrow> json \<Rightarrow> error + ustr" where
  \<comment> \<open>\<open>_strip_html(c.get("text") or "")\<close>, for a \<open>dict\<close> \<open>c\<close>: \<open>re.sub\<close> takes strings only\<close>
  "comment_text L c =
     (case (if truthy (field c (ascii ''text'')) then field c (ascii ''text'') else JStr []) of
        JStr raw \<Rightarrow> strip_html L raw
      | _ \<Rightarrow> Inl TypeError)"

definition build_job :: "pylib \<Rightarrow> ustr option \<Rightarrow> json \<Rightarrow> ustr \<Rightarrow> error + posting" where
  \<comment> \<open>the loop from \<open>_extract_company_and_title\<close> to the \<open>job\<close> dictionary, for a \<open>dict\<close> \<open>c\<close>
      and its normalized text\<close>
  "build_job L location c text =
     (case extract_company_and_title text of
        Inl e \<Rightarrow> Inl e
      | Inr (company, title) \<Rightarrow>
          (let c_id = field c (ascii ''id'');
               loc = extract_location L text;
               loc = (case location of None \<Rightarrow> loc | Some l \<Rightarrow> if l \<noteq> [] then l else loc)
           in Inr \<lparr> p_id = ascii ''hn_'' @ format_id L c_id,
                    p_source = ascii ''ycombinator'',
                    p_title = (if title \<noteq> [] then title else ascii ''Software Engineer''),
                    p_company =
                      (if company \<noteq> [] then JStr company
                       else if truthy (field c (ascii ''author'')) then field c (ascii ''author'')
                       else JStr (ascii ''Unknown'')),
                    p_location = loc,
                    p_description = take 800 text,
                    p_url = ascii ''https://news.ycombinator.com/item?id='' @ format_id L c_id \<rparr>))"

definition node_job :: "pylib \<Rightarrow> ustr list \<Rightarrow> ustr option \<Rightarrow> json \<Rightarrow> error + posting option" where
  \<comment> \<open>the body of the loop up to \<open>job\<close>: \<open>Inr None\<close> is \<open>continue\<close>\<close>
  "node_job L terms location c =
     (if \<not> truthy c then Inr None
      else
        (case get c (ascii ''type'') of
           Inl e \<Rightarrow> Inl e
         | Inr t \<Rightarrow>
             if t \<noteq> JStr (ascii ''comment'') then Inr None
             else
               (case comment_text L c of
                  Inl e \<Rightarrow> Inl e
                | Inr text \<Rightarrow>
                    if text = [] then Inr None
                    else if \<not> matches_terms L text terms then Inr None
                    else if \<not> matches_location L text location then Inr None
                    else (case build_job L location c text of
                            Inl e \<Rightarrow> Inl e
                          | Inr job \<Rightarrow> Inr (Some job)))))"

fun yc_loop ::
  "pylib \<Rightarrow> ustr list \<Rightarrow> ustr option \<Rightarrow> int \<Rightarrow> posting list \<Rightarrow> json list
     \<Rightarrow> error + posting list" where
  \<comment> \<open>\<open>for c in comments\<close>, with \<open>results\<close> as it stands when the loop reaches the node\<close>
  "yc_loop L terms location limit results [] = Inr results"
| "yc_loop L terms location limit results (c # rest) =
     (case node_job L terms location c of
        Inl e \<Rightarrow> Inl e
      | Inr None \<Rightarrow> yc_loop L terms location limit results rest
      | Inr (Some job) \<Rightarrow>
          (let results' = results @ [job]
           in if int (length results') \<ge> limit then Inr results'
              else yc_loop L terms location limit results' rest))"

definition yc_search ::
  "pylib \<Rightarrow> world \<Rightarrow> ustr list \<Rightarrow> ustr option \<Rightarrow> int \<Rightarrow> error + posting list" where
  \<comment> \<open>the messages that \<open>verbose\<close> sends to standard error are left out\<close>
  "yc_search L w terms location limit =
     (case latest_who_is_hiring_story_id L w of
        Inl e \<Rightarrow> Inr []
      | Inr None \<Rightarrow> Inr []
      | Inr (Some story_id) \<Rightarrow>
          (case fetch_thread_comments w story_id of
             Inl e \<Rightarrow> Inr []
           | Inr comments \<Rightarrow> yc_loop L terms location limit [] comments))"

text \<open>
  The nodes the loop of \<open>yc_search\<close> runs over: the replies of the thread found, and none
  when the search returns before the loop.
\<close>

definition thread_comments :: "pylib \<Rightarrow> world \<Rightarrow> json list" where
  "thread_comments L w =
     (case latest_who_is_hiring_story_id L w of
        Inl e \<Rightarrow> []
      | Inr None \<Rightarrow> []
      | Inr (Some story_id) \<Rightarrow>
          (case fetch_thread_comments w story_id of Inl e \<Rightarrow> [] | Inr comments \<Rightarrow> comments))"

section \<open>Notions of the specification\<close>

text \<open>
  A key occurs in a text as a whole word at index \<open>i\<close> when the text reads the key from
  \<open>i\<close> on and the characters next to the occurrence, where there are any, are no word
  characters.
\<close>

definition whole_word_at :: "pylib \<Rightarrow> ustr \<Rightarrow> ustr \<Rightarrow> nat \<Rightarrow> bool" where
  "whole_word_at L key t i \<longleftrightarrow>
     i + length key \<le> length t \<and> take (length key) (drop i t) = key
     \<and> (i = 0 \<or> \<not> is_word L (t ! (i - 1)))
     \<and> (i + length key = length t \<or> \<not> is_word L (t ! (i + length key)))"

definition occurs_as_word :: "pylib \<Rightarrow> ustr \<Rightarrow> ustr \<Rightarrow> bool" where
  "occurs_as_word L key t \<longleftrightarrow> (\<exists>i \<in> {0..length t}. whole_word_at L key t i)"

text \<open>
  The comments of a reply list (the nodes that the loop does not pass over for their type)
  and the identifier of a node as the posting prints it.
\<close>

definition is_comment :: "json \<Rightarrow> bool" where
  "is_comment c \<longleftrightarrow> truthy c \<and> field c (ascii ''type'') = JStr (ascii ''comment'')"

definition printed_id :: "pylib \<Rightarrow> json \<Rightarrow> ustr" where
  "printed_id L c = format_id L (field c (ascii ''id''))"

text \<open>An identifier as the item endpoint gives it (an integer), or none.\<close>

definition integer_or_missing :: "json \<Rightarrow> bool" where
  "integer_or_missing v = (case v of JNull \<Rightarrow> True | JInt n \<Rightarrow> True | _ \<Rightarrow> False)"

text \<open>
  A comment passes the four filters of the loop: it is of type \<open>comment\<close>, has text left
  after normalization, and that text matches the terms and the location.
\<close>

definition keeps :: "pylib \<Rightarrow> ustr list \<Rightarrow> ustr option \<Rightarrow> json \<Rightarrow> bool" where
  "keeps L terms location c \<longleftrightarrow>
     is_comment c
     \<and> (case comment_text L c of
          Inl e \<Rightarrow> False
        | Inr text \<Rightarrow>
            text \<noteq> [] \<and> matches_terms L text terms \<and> matches_location L text location)"

text \<open>
  Text in which white space is single blanks: every white-space character is a space
  (U+0020) and none follows another.
\<close>

fun single_spaced :: "ustr \<Rightarrow> bool" where
  "single_spaced [] = True"
| "single_spaced (c # cs) =
     ((is_space c \<longrightarrow> c = 32 \<and> (cs = [] \<or> \<not> is_space (hd cs))) \<and> single_spaced cs)"

text \<open>
  A node that the loop passes over whatever the terms and the location are: a node that is
  missing or empty (\<open>null\<close>, an empty object, any other falsy value), an object that is no
  comment, a comment whose text is missing or empty after normalization.
\<close>

definition skipped :: "pylib \<Rightarrow> json \<Rightarrow> bool" where
  "skipped L c \<longleftrightarrow>
     \<not> truthy c
     \<or> (case c of
          JObj kvs \<Rightarrow>
            field c (ascii ''type'') \<noteq> JStr (ascii ''comment'') \<or> comment_text L c = Inr []
        | _ \<Rightarrow> False)"

text \<open>The search with the term filter taken out: the loop of \<open>yc_search\<close> without its call
  of \<open>_matches_terms\<close>.\<close>

definition node_job_without_term_filter ::
  "pylib \<Rightarrow> ustr option \<Rightarrow> json \<Rightarrow> error + posting option" where
  "node_job_without_term_filter L location c =
     (if \<not> truthy c then Inr None
      else
        (case get c (ascii ''type'') of
           Inl e \<Rightarrow> Inl e
         | Inr t \<Rightarrow>
             if t \<noteq> JStr (ascii ''comment'') then Inr None
             else
               (case comment_text L c of
                  Inl e \<Rightarrow> Inl e
                | Inr text \<Rightarrow>
                    if text = [] then Inr None
                    else if \<not> matches_location L text location then Inr None
                    else (case build_job L location c text of
                            Inl e \<Rightarrow> Inl e
                          | Inr job \<Rightarrow> Inr (Some job)))))"

fun loop_without_term_filter ::
  "pylib \<Rightarrow> ustr option \<Rightarrow> int \<Rightarrow> posting list \<Rightarrow> json list \<Rightarrow> error + posting list" where
  "loop_without_term_filter L location limit results [] = Inr results"
| "loop_without_term_filter L location limit results (c # rest) =
     (case node_job_without_term_filter L location c of
        Inl e \<Rightarrow> Inl e
      | Inr None \<Rightarrow> loop_without_term_filter L location limit results rest
      | Inr (Some job) \<Rightarrow>
          (let results' = results @ [job]
           in if int (length results') \<ge> limit then Inr results'
              else loop_without_term_filter L location limit results' rest))"

section \<open>A library to run the model with\<close>

text \<open>
  \<open>sample_lib\<close> agrees with a CPython in its default configuration wherever the examples
  below consult it: their texts are ASCII, they use no named character reference outside
  the excerpt of \<open>html.entities.html5\<close> given here, their identifiers are plain digit
  strings, and they print no list and no dict.
\<close>

definition sample_html5 :: "(ustr \<times> ustr) list" where
  "sample_html5 =
     [(ascii ''amp;'', [38]), (ascii ''amp'', [38]),
      (ascii ''lt;'', [60]), (ascii ''lt'', [60]),
      (ascii ''gt;'', [62]), (ascii ''gt'', [62]),
      (ascii ''quot;'', [34]), (ascii ''quot'', [34]),
      (ascii ''apos;'', [39]),
      (ascii ''nbsp;'', [0xA0]), (ascii ''nbsp'', [0xA0])]"

definition sample_lib :: pylib where
  "sample_lib =
     \<lparr> lower_hi = map ascii_lower,
       isalnum_hi = (\<lambda>c. False),
       html5 = map_of sample_html5,
       int_of_str = (\<lambda>s. if s \<noteq> [] \<and> list_all is_digit s
                           then Some (int (int_base 10 s)) else None),
       str_container = (\<lambda>v. []),
       max_str_digits = 4300 \<rparr>"

definition hiring_hit :: hit where
  "hiring_hit = \<lparr> h_title = Some (ascii ''Ask HN: Who is hiring? (May 2025)''),
                   h_objectID = Some (ascii ''43858554'') \<rparr>"

definition thread_world :: "json list \<Rightarrow> world" where
  \<comment> \<open>the dated search finds the thread, and the thread has the replies given\<close>
  "thread_world comments =
     \<lparr> dated_search = Inr [hiring_hit],
       fallback_search = Inl HTTPError,
       item_children = (\<lambda>story_id. if story_id = 43858554 then Inr comments else Inl HTTPError) \<rparr>"

definition a_comment :: "json \<Rightarrow> ustr \<Rightarrow> json" where
  \<comment> \<open>a reply of type \<open>comment\<close> by \<open>jdoe\<close> with the identifier and the text given\<close>
  "a_comment i s =
     JObj [(ascii ''type'', JStr (ascii ''comment'')), (ascii ''id'', i), (ascii ''text'', JStr s),
           (ascii ''author'', JStr (ascii ''jdoe''))]"

definition acme :: json where
  "acme = a_comment (JInt 1) (ascii ''Acme - Engineer, Remote'')"

definition globex :: json where
  "globex = a_comment (JInt 2) (ascii ''Globex | Designer | Boston'')"

definition job_acme :: "ustr \<Rightarrow> posting" where
  \<comment> \<open>the posting of \<open>acme\<close>, up to its location\<close>
  "job_acme loc =
     \<lparr> p_id = ascii ''hn_1'', p_source = ascii ''ycombinator'',
       p_title = ascii ''Engineer, Remote'', p_company = JStr (ascii ''Acme''),
       p_location = loc,
       p_description = ascii ''Acme - Engineer, Remote'',
       p_url = ascii ''https://news.ycombinator.com/item?id=1'' \<rparr>"

definition job_globex :: "ustr \<Rightarrow> posting" where
  "job_globex loc =
     \<lparr> p_id = ascii ''hn_2'', p_source = ascii ''ycombinator'',
       p_title = ascii ''Designer'', p_company = JStr (ascii ''Globex''), p_location = loc,
       p_description = ascii ''Globex | Designer | Boston'',
       p_url = ascii ''https://news.ycombinator.com/item?id=2'' \<rparr>"

definition long_text :: ustr where
  \<comment> \<open>800 times the letter a, then \<open>" remote"\<close>\<close>
  "long_text = replicate 800 97 @ ascii '' remote''"

definition long_comment :: json where
  "long_comment = a_comment (JInt 3) long_text"

definition long_job :: posting where
  "long_job =
     \<lparr> p_id = ascii ''hn_3'', p_source = ascii ''ycombinator'', p_title = replicate 120 97,
       p_company = JStr (ascii ''jdoe''), p_location = ascii ''Remote'',
       p_description = replicate 800 97,
       p_url = ascii ''https://news.ycombinator.com/item?id=3'' \<rparr>"

definition sample_markup :: ustr where
  "sample_markup = ascii ''<p>AT&amp;T and R&amp;D,   pay &lt; 200k</p>''"

definition twin :: json where
  \<comment> \<open>a second comment whose identifier prints as that of \<open>acme\<close>: the string \<open>"1"\<close>\<close>
  "twin = a_comment (JStr (ascii ''1'')) (ascii ''Globex | Designer | Boston'')"

definition nameless :: json where
  \<comment> \<open>a comment with no identifier\<close>
  "nameless = JObj [(ascii ''type'', JStr (ascii ''comment'')),
                    (ascii ''text'', JStr (ascii ''Acme - Engineer, Remote'')),
                    (ascii ''author'', JStr (ascii ''jdoe''))]"

definition blank :: json where
  \<comment> \<open>a comment with markup and white space only\<close>
  "blank = a_comment (JInt 9) (ascii ''<p> </p>'')"

definition dotted :: json where
  \<comment> \<open>a comment whose text starts with a full stop and a space\<close>
  "dotted = a_comment (JInt 4) (ascii ''. NET developers wanted'')"

definition no_hits :: world where
  \<comment> \<open>both searches answer, with no hit\<close>
  "no_hits = \<lparr> dated_search = Inr [], fallback_search = Inr [],
               item_children = (\<lambda>story_id. Inl HTTPError) \<rparr>"

definition job_twin :: posting where
  "job_twin = (job_globex (ascii ''Boston''))
     \<lparr> p_id := ascii ''hn_1'', p_url := ascii ''https://news.ycombinator.com/item?id=1'' \<rparr>"

definition job_nameless :: posting where
  "job_nameless = (job_acme (ascii ''Remote''))
     \<lparr> p_id := ascii ''hn_None'',
       p_url := ascii ''https://news.ycombinator.com/item?id=None'' \<rparr>"

section \<open>The normalizer\<close>

lemma charref_group_shape:
  "charref_group r = Some g \<Longrightarrow> g \<noteq> [] \<and> (hd g = 35 \<longrightarrow> 2 \<le> length g)"
  by (cases r) (auto simp: charref_group_def Let_def Suc_le_eq split: if_splits list.splits)

lemma sub_tags_no_lt: "60 \<notin> set s \<Longrightarrow> sub_tags s = s"
  by (induction s) simp_all

lemma unescape_no_amp: "38 \<notin> set s \<Longrightarrow> unescape L s = Inr s"
  by (simp add: unescape_def)

lemma sub_spaces_hd:
  "t \<noteq> [] \<Longrightarrow> \<not> is_space (hd t) \<Longrightarrow> sub_spaces t \<noteq> [] \<and> hd (sub_spaces t) = hd t"
  by (cases t) simp_all

lemma single_spaced_sub_spaces: "single_spaced (sub_spaces s)"
proof (induction s rule: sub_spaces.induct)
  case 1
  show ?case by simp
next
  case (2 c cs)
  show ?case
  proof (cases "is_space c")
    case True
    let ?t = "dropWhile is_space cs"
    have "sub_spaces ?t = [] \<or> \<not> is_space (hd (sub_spaces ?t))"
    proof (cases "?t = []")
      case True
      have "sub_spaces ?t = []" by (simp only: True sub_spaces.simps)
      then show ?thesis ..
    next
      case False
      then have "\<not> is_space (hd ?t)" by (rule hd_dropWhile)
      with False sub_spaces_hd [of ?t] show ?thesis by simp
    qed
    moreover have "is_space 32" by (simp add: is_space_def)
    ultimately show ?thesis using True 2 by simp
  next
    case False
    with 2 show ?thesis by simp
  qed
qed

lemma sub_spaces_single_spaced: "single_spaced s \<Longrightarrow> sub_spaces s = s"
proof (induction s)
  case Nil
  show ?case by simp
next
  case (Cons c cs)
  show ?case
  proof (cases "is_space c")
    case True
    with Cons.prems have c: "c = 32" and cs: "cs = [] \<or> \<not> is_space (hd cs)" by simp_all
    from cs have "dropWhile is_space cs = cs" by (cases cs) simp_all
    with True c Cons show ?thesis by simp
  next
    case False
    with Cons show ?thesis by simp
  qed
qed

lemma single_spaced_append:
  "single_spaced (xs @ ys) \<Longrightarrow> single_spaced xs \<and> single_spaced ys"
proof (induction xs)
  case Nil
  then show ?case by simp
next
  case (Cons c cs)
  then show ?case by (cases cs) auto
qed

lemma strip_decomp: "\<exists>pre post. s = pre @ strip s @ post"
proof -
  let ?d = "dropWhile is_space s"
  have "s = takeWhile is_space s @ ?d" by simp
  moreover have "?d = strip s @ rev (takeWhile is_space (rev ?d))"
    unfolding strip_def by (metis rev_append rev_rev_ident takeWhile_dropWhile_id)
  ultimately have "s = takeWhile is_space s @ strip s @ rev (takeWhile is_space (rev ?d))"
    by simp
  then show ?thesis by blast
qed

lemma single_spaced_strip: "single_spaced s \<Longrightarrow> single_spaced (strip s)"
proof -
  assume s: "single_spaced s"
  obtain pre post where "s = pre @ strip s @ post" using strip_decomp by blast
  with s have "single_spaced (pre @ strip s @ post)" by simp
  then show ?thesis using single_spaced_append by blast
qed

lemma dropWhile_strip: "dropWhile is_space (strip s) = strip s"
proof (cases "strip s = []")
  case True
  then show ?thesis by simp
next
  case False
  let ?d = "dropWhile is_space s"
  from False have d: "?d \<noteq> []" by (auto simp: strip_def dest: set_dropWhileD)
  then have nd: "\<not> is_space (hd ?d)" by (rule hd_dropWhile)
  have "?d = strip s @ rev (takeWhile is_space (rev ?d))"
    unfolding strip_def by (metis rev_append rev_rev_ident takeWhile_dropWhile_id)
  with False have "hd ?d = hd (strip s)" by (metis hd_append2)
  with nd have "\<not> is_space (hd (strip s))" by simp
  with False show ?thesis by (cases "strip s") simp_all
qed

lemma strip_strip: "strip (strip s) = strip s"
proof -
  have "strip (strip s) = rev (dropWhile is_space (rev (strip s)))"
    by (simp add: strip_def [of "strip s"] dropWhile_strip)
  also have "\<dots> = rev (dropWhile is_space (dropWhile is_space (rev (dropWhile is_space s))))"
    by (simp add: strip_def)
  also have "\<dots> = strip s"
    by (simp add: strip_def dropWhile_idem)
  finally show ?thesis .
qed

lemma strip_html_normal:
  assumes "strip_html L x = Inr y"
  shows "single_spaced y" and "strip y = y"
proof -
  from assms obtain t where y: "y = strip (sub_spaces t)"
    by (auto simp: strip_html_def split: sum.splits)
  show "single_spaced y"
    unfolding y by (rule single_spaced_strip) (rule single_spaced_sub_spaces)
  show "strip y = y"
    unfolding y by (rule strip_strip)
qed

lemma plain_text_unchanged:
  "60 \<notin> set y \<Longrightarrow> 38 \<notin> set y \<Longrightarrow> unescape L (sub_tags y) = Inr y"
  by (simp add: sub_tags_no_lt unescape_no_amp)

lemma strip_plain:
  "s \<noteq> [] \<Longrightarrow> \<not> is_space (hd s) \<Longrightarrow> \<not> is_space (last s) \<Longrightarrow> strip s = s"
proof -
  assume s: "s \<noteq> []" and h: "\<not> is_space (hd s)" and l: "\<not> is_space (last s)"
  from s h have d: "dropWhile is_space s = s" by (cases s) simp_all
  from s l have "dropWhile is_space (rev s) = rev s"
    by (cases "rev s") (simp_all add: last_rev [symmetric] del: last_rev)
  with d show ?thesis by (simp add: strip_def)
qed

lemma strip_html_plain:
  assumes "60 \<notin> set s" and "38 \<notin> set s" and "single_spaced s"
    and "s \<noteq> []" and "\<not> is_space (hd s)" and "\<not> is_space (last s)"
  shows "strip_html L s = Inr s"
  using assms
  by (simp add: strip_html_def sub_tags_no_lt unescape_no_amp sub_spaces_single_spaced strip_plain)

lemma strip_all_space: "list_all is_space l \<Longrightarrow> strip l = []"
proof -
  assume "list_all is_space l"
  then have d: "dropWhile is_space l = []"
    by (induction l) simp_all
  show ?thesis by (simp add: strip_def d)
qed

section \<open>Substrings and filters\<close>

text \<open>
  \<open>str_in\<close>, the model of Python's \<open>in\<close>, is the substring relation of the library.
\<close>

lemma str_in_sublist: "str_in p t \<longleftrightarrow> sublist p t"
  by (induction t) (simp_all add: sublist_Cons_right)

lemma str_in_Nil: "str_in [] t"
  by (cases t) simp_all

lemma str_in_append: "str_in p ys \<Longrightarrow> str_in p (xs @ ys)"
  by (induction xs) simp_all

lemma str_in_set: "str_in p t \<Longrightarrow> set p \<subseteq> set t"
proof (induction t)
  case Nil
  then show ?case by simp
next
  case (Cons c cs)
  then show ?case using set_mono_prefix [of p "c # cs"] by auto
qed

lemma lower_Nil: "lower L [] = []"
  by (simp add: lower_def)

lemma matches_location_supplied:
  "l \<noteq> [] \<Longrightarrow> matches_location L text (Some l) = str_in (lower L (strip l)) (lower L text)"
  by (simp add: matches_location_def Let_def)

lemma matches_terms_Nil: "matches_terms L text []"
  by (simp add: matches_terms_def)

section \<open>The loop of \<open>yc_search\<close>\<close>

lemma is_comment_get:
  "is_comment c \<Longrightarrow> get c (ascii ''type'') = Inr (JStr (ascii ''comment''))"
  by (cases c) (simp_all add: is_comment_def get_def field_def)

lemma node_job_Some:
  assumes "node_job L terms location c = Inr (Some p)"
  shows "is_comment c \<and>
         (\<exists>text. comment_text L c = Inr text \<and> text \<noteq> [] \<and> matches_terms L text terms
                 \<and> matches_location L text location \<and> build_job L location c text = Inr p)"
proof -
  from assms have t: "truthy c"
    by (auto simp: node_job_def split: if_splits)
  with assms obtain kvs where c: "c = JObj kvs"
    by (cases c) (simp_all add: node_job_def get_def)
  from assms t c have ty: "field c (ascii ''type'') = JStr (ascii ''comment'')"
    by (auto simp: node_job_def get_def split: if_splits)
  from assms t c ty obtain nt where nt: "comment_text L c = Inr nt"
    by (cases "comment_text L c") (simp_all add: node_job_def get_def)
  from assms t c ty nt
  have "nt \<noteq> [] \<and> matches_terms L nt terms \<and> matches_location L nt location
        \<and> build_job L location c nt = Inr p"
    by (auto simp: node_job_def get_def split: if_splits sum.splits)
  with t ty nt show ?thesis by (auto simp: is_comment_def)
qed

lemma keeps_node_job:
  assumes "keeps L terms location c"
  obtains nt where "comment_text L c = Inr nt"
    and "node_job L terms location c
           = (case build_job L location c nt of Inl e \<Rightarrow> Inl e | Inr job \<Rightarrow> Inr (Some job))"
proof -
  from assms have ic: "is_comment c" by (simp add: keeps_def)
  from assms obtain nt where nt: "comment_text L c = Inr nt"
    and ok: "nt \<noteq> []" "matches_terms L nt terms" "matches_location L nt location"
    by (cases "comment_text L c") (simp_all add: keeps_def)
  from ic have "truthy c" by (simp add: is_comment_def)
  with is_comment_get [OF ic] nt ok
  have "node_job L terms location c
           = (case build_job L location c nt of Inl e \<Rightarrow> Inl e | Inr job \<Rightarrow> Inr (Some job))"
    by (simp add: node_job_def)
  with nt show thesis by (rule that)
qed

lemma keeps_not_passed_over: "keeps L terms location c \<Longrightarrow> node_job L terms location c \<noteq> Inr None"
  by (erule keeps_node_job) (simp split: sum.splits)

lemma skipped_node_job: "skipped L c \<Longrightarrow> node_job L terms location c = Inr None"
  by (cases c) (auto simp: skipped_def node_job_def get_def)

lemma build_job_fields:
  assumes "build_job L location c text = Inr p"
  shows "p_id p = ascii ''hn_'' @ printed_id L c"
    and "p_description p = take 800 text"
    and "location = Some l \<Longrightarrow> l \<noteq> [] \<Longrightarrow> p_location p = l"
  using assms
  by (auto simp: build_job_def printed_id_def Let_def split: sum.splits prod.splits)

lemma yc_search_loop:
  "yc_search L w terms location limit = yc_loop L terms location limit [] (thread_comments L w)"
  by (simp add: yc_search_def thread_comments_def split: sum.splits option.splits)

lemma yc_loop_length:
  "int (length results) < limit \<Longrightarrow> yc_loop L terms location limit results comments = Inr ps
     \<Longrightarrow> int (length ps) \<le> limit"
proof (induction comments arbitrary: results)
  case Nil
  then show ?case by simp
next
  case (Cons c rest)
  show ?case
  proof (cases "node_job L terms location c")
    case (Inl e)
    with Cons.prems show ?thesis by simp
  next
    case (Inr found)
    show ?thesis
    proof (cases found)
      case None
      with Inr Cons show ?thesis by simp
    next
      case (Some job)
      show ?thesis
      proof (cases "limit \<le> int (length (results @ [job]))")
        case True
        with Cons.prems Inr Some have "ps = results @ [job]" by simp
        with Cons.prems(1) show ?thesis by simp
      next
        case False
        with Cons.prems Inr Some
        have "yc_loop L terms location limit (results @ [job]) rest = Inr ps" by simp
        moreover from False have "int (length (results @ [job])) < limit" by simp
        ultimately show ?thesis by (rule Cons.IH [rotated])
      qed
    qed
  qed
qed

lemma yc_loop_origin:
  "yc_loop L terms location limit results comments = Inr ps \<Longrightarrow> p \<in> set ps
     \<Longrightarrow> p \<in> set results
         \<or> (\<exists>c \<in> set comments. node_job L terms location c = Inr (Some p))"
proof (induction comments arbitrary: results)
  case Nil
  then show ?case by simp
next
  case (Cons c rest)
  show ?case
  proof (cases "node_job L terms location c")
    case (Inl e)
    with Cons.prems show ?thesis by simp
  next
    case (Inr found)
    show ?thesis
    proof (cases found)
      case None
      with Inr Cons.prems Cons.IH [of results] show ?thesis by auto
    next
      case (Some job)
      show ?thesis
      proof (cases "limit \<le> int (length (results @ [job]))")
        case True
        with Cons.prems Inr Some have "ps = results @ [job]" by simp
        with Cons.prems(2) Inr Some show ?thesis by auto
      next
        case False
        with Cons.prems Inr Some
        have "yc_loop L terms location limit (results @ [job]) rest = Inr ps" by simp
        from Cons.IH [OF this Cons.prems(2)] Inr Some show ?thesis by auto
      qed
    qed
  qed
qed

lemma yc_loop_skip:
  "skipped L node \<Longrightarrow>
     yc_loop L terms location limit results (before @ node # rest)
       = yc_loop L terms location limit results (before @ rest)"
proof (induction before arbitrary: results)
  case Nil
  then show ?case by (simp add: skipped_node_job)
next
  case (Cons n ns)
  then show ?case
    by (simp add: Let_def split: sum.splits option.splits)
qed

lemma yc_loop_nonpositive_limit:
  assumes "limit \<le> 0"
  shows "yc_loop L terms location limit [] comments = Inr ps \<Longrightarrow> length ps \<le> 1"
    and "c \<in> set comments \<Longrightarrow> keeps L terms location c
           \<Longrightarrow> yc_loop L terms location limit [] comments = Inr ps \<Longrightarrow> length ps = 1"
proof (induction comments)
  case Nil
  { case 1 then show ?case by simp }
  { case 2 then show ?case by simp }
next
  case (Cons node rest)
  { case 1
    with Cons.IH(1) assms show ?case
      by (auto simp: Let_def split: if_splits sum.splits option.splits) }
  { case 2
    with Cons.IH(2) assms keeps_not_passed_over [of L terms location c] show ?case
      by (auto simp: Let_def split: if_splits sum.splits option.splits) }
qed

lemma yc_search_nonpositive_limit:
  assumes "limit \<le> 0" and "c \<in> set (thread_comments L w)"
    and "keeps L terms location c" and "yc_search L w terms location limit = Inr ps"
  shows "length ps = 1"
  using assms yc_loop_nonpositive_limit(2) [of limit c "thread_comments L w" L terms location ps]
  by (simp add: yc_search_loop)

lemma node_job_no_terms:
  "node_job L [] location c = node_job_without_term_filter L location c"
  by (simp add: node_job_def node_job_without_term_filter_def matches_terms_Nil
      split: sum.splits)

lemma yc_loop_no_terms:
  "yc_loop L [] location limit results comments
     = loop_without_term_filter L location limit results comments"
  by (induction comments arbitrary: results)
     (simp_all add: node_job_no_terms Let_def split: sum.splits option.splits)

section \<open>Identifiers\<close>

text \<open>
  Printing an integer identifier loses nothing: different integers print differently, and
  none prints as \<open>None\<close>. Other values can print alike.
\<close>

lemma digits_nonempty: "digits n \<noteq> []"
  by (subst digits.simps) simp

lemma digits_range: "c \<in> set (digits n) \<Longrightarrow> 48 \<le> c \<and> c \<le> 57"
proof (induction n rule: digits.induct)
  case (1 n)
  show ?case
  proof (cases "n < 10")
    case True
    with "1.prems" show ?thesis by (subst (asm) digits.simps) simp
  next
    case False
    from "1.prems" have "c \<in> set (digits (n div 10)) \<or> c = 48 + n mod 10"
      by (subst (asm) digits.simps) (auto simp: False)
    then show ?thesis
    proof
      assume "c \<in> set (digits (n div 10))"
      with False "1.IH" show ?thesis by simp
    next
      assume "c = 48 + n mod 10"
      moreover have "n mod 10 < 10" by simp
      ultimately show ?thesis by linarith
    qed
  qed
qed

lemma digits_inj: "digits n = digits m \<Longrightarrow> n = m"
proof (induction n arbitrary: m rule: digits.induct)
  case (1 n)
  show ?case
  proof (cases "n < 10")
    case small_n: True
    show ?thesis
    proof (cases "m < 10")
      case True
      with small_n "1.prems" show ?thesis
        by (simp add: digits.simps [of n] digits.simps [of m])
    next
      case False
      with small_n "1.prems" digits_nonempty [of "m div 10"] show ?thesis
        by (simp add: digits.simps [of n] digits.simps [of m])
    qed
  next
    case big_n: False
    show ?thesis
    proof (cases "m < 10")
      case True
      with big_n "1.prems" digits_nonempty [of "n div 10"] show ?thesis
        by (simp add: digits.simps [of n] digits.simps [of m])
    next
      case False
      with big_n "1.prems"
      have eq: "digits (n div 10) = digits (m div 10)" and md: "n mod 10 = m mod 10"
        by (simp_all add: digits.simps [of n] digits.simps [of m])
      from "1.IH" [OF big_n eq] have "n div 10 = m div 10" .
      with md show ?thesis by (metis div_mult_mod_eq)
    qed
  qed
qed

lemma hd_digits: "48 \<le> hd (digits n) \<and> hd (digits n) \<le> 57"
  using digits_range [of "hd (digits n)" n] digits_nonempty [of n] by simp

lemma str_int_inj: "str_int i = str_int j \<Longrightarrow> i = j"
proof -
  assume eq: "str_int i = str_int j"
  consider "i < 0" "j < 0" | "i < 0" "0 \<le> j" | "0 \<le> i" "j < 0" | "0 \<le> i" "0 \<le> j"
    by linarith
  then show ?thesis
  proof cases
    case 1
    with eq have "nat (- i) = nat (- j)" by (auto simp: str_int_def dest: digits_inj)
    with 1 show ?thesis by simp
  next
    case 2
    with eq have "hd (digits (nat j)) = 45" by (simp add: str_int_def) (metis list.sel(1))
    with hd_digits [of "nat j"] show ?thesis by simp
  next
    case 3
    with eq have "hd (digits (nat i)) = 45" by (simp add: str_int_def)
    with hd_digits [of "nat i"] show ?thesis by simp
  next
    case 4
    with eq have "nat i = nat j" by (auto simp: str_int_def dest: digits_inj)
    with 4 show ?thesis by simp
  qed
qed

lemma hd_str_int: "hd (str_int i) = 45 \<or> (48 \<le> hd (str_int i) \<and> hd (str_int i) \<le> 57)"
  using hd_digits [of "nat i"] by (simp add: str_int_def)

lemma format_id_inj:
  assumes "integer_or_missing u" and "integer_or_missing v"
    and "format_id L u = format_id L v"
  shows "u = v"
proof -
  have none: "str_int n \<noteq> ascii ''None''" for n
  proof
    assume "str_int n = ascii ''None''"
    then have "hd (str_int n) = 78" by (simp add: ascii_def)
    with hd_str_int [of n] show False by simp
  qed
  from assms show ?thesis
    by (cases u; cases v)
       (auto simp: integer_or_missing_def format_id_def none none [symmetric] dest: str_int_inj)
qed

lemma subseq_keeps_distinct: "subseq xs ys \<Longrightarrow> distinct ys \<Longrightarrow> distinct xs"
  by (auto simp: subseq_conv_nths)

lemma distinct_integer_ids:
  assumes "\<forall>c \<in> set cs. integer_or_missing (field c (ascii ''id''))"
    and "distinct (map (\<lambda>c. field c (ascii ''id'')) cs)"
  shows "distinct (map (printed_id L) cs)"
proof -
  let ?ids = "map (\<lambda>c. field c (ascii ''id'')) cs"
  have "inj_on (format_id L) (set ?ids)"
    using assms(1) by (auto intro!: inj_onI dest: format_id_inj)
  with assms(2) have "distinct ?ids \<and> inj_on (format_id L) (set ?ids)" ..
  then have "distinct (map (format_id L) ?ids)"
    by (rule iffD2 [OF distinct_map])
  moreover have "printed_id L = (\<lambda>c. format_id L (field c (ascii ''id'')))"
    by (rule ext) (simp add: printed_id_def)
  ultimately show ?thesis by (simp add: comp_def)
qed

lemma yc_loop_ids:
  "yc_loop L terms location limit results comments = Inr ps
     \<Longrightarrow> \<exists>ks. subseq ks (filter is_comment comments)
              \<and> map p_id ps = map p_id results @ map (\<lambda>c. ascii ''hn_'' @ printed_id L c) ks"
proof (induction comments arbitrary: results)
  case Nil
  then show ?case by auto
next
  case (Cons c rest)
  show ?case
  proof (cases "node_job L terms location c")
    case (Inl e)
    with Cons.prems show ?thesis by simp
  next
    case (Inr found)
    show ?thesis
    proof (cases found)
      case None
      with Inr Cons.prems have "yc_loop L terms location limit results rest = Inr ps" by simp
      from Cons.IH [OF this] show ?thesis by auto
    next
      case (Some job)
      from node_job_Some [of L terms location c job] Inr Some
      obtain nt where ic: "is_comment c" and job: "build_job L location c nt = Inr job"
        by auto
      from build_job_fields(1) [OF job] have id: "p_id job = ascii ''hn_'' @ printed_id L c" .
      show ?thesis
      proof (cases "limit \<le> int (length (results @ [job]))")
        case True
        with Cons.prems Inr Some have "ps = results @ [job]" by simp
        with id ic have "subseq [c] (filter is_comment (c # rest))
            \<and> map p_id ps = map p_id results @ map (\<lambda>c. ascii ''hn_'' @ printed_id L c) [c]"
          by simp
        then show ?thesis by blast
      next
        case False
        with Cons.prems Inr Some
        have "yc_loop L terms location limit (results @ [job]) rest = Inr ps" by simp
        from Cons.IH [OF this] obtain ks where ks: "subseq ks (filter is_comment rest)"
          "map p_id ps
             = map p_id (results @ [job]) @ map (\<lambda>c. ascii ''hn_'' @ printed_id L c) ks"
          by blast
        with id ic have "subseq (c # ks) (filter is_comment (c # rest))
            \<and> map p_id ps
                = map p_id results @ map (\<lambda>c. ascii ''hn_'' @ printed_id L c) (c # ks)"
          by simp
        then show ?thesis by blast
      qed
    qed
  qed
qed

section \<open>Whole words\<close>

text \<open>
  For a key that starts and ends with a word character, the search for \<open>\bkey\b\<close> finds
  exactly the occurrences of the key as a whole word.
\<close>

lemma prefix_take: "prefix xs ys \<longleftrightarrow> length xs \<le> length ys \<and> take (length xs) ys = xs"
proof
  assume "prefix xs ys"
  then show "length xs \<le> length ys \<and> take (length xs) ys = xs"
    by (auto simp: prefix_def)
next
  assume "length xs \<le> length ys \<and> take (length xs) ys = xs"
  then show "prefix xs ys" by (metis take_is_prefix)
qed

lemma head_drop: "head (drop n t) = (if n < length t then Some (t ! n) else None)"
proof (cases "n < length t")
  case True
  then have "drop n t = t ! n # drop (Suc n) t" by (simp add: Cons_nth_drop_Suc)
  with True show ?thesis by (simp add: head_def)
next
  case False
  then show ?thesis by (simp add: head_def)
qed

lemma match_word_letters:
  assumes "key \<noteq> []" and "is_word L (hd key)" and "is_word L (last key)"
  shows "match_word L key prev t \<longleftrightarrow>
           prefix key t
           \<and> \<not> (case prev of None \<Rightarrow> False | Some c \<Rightarrow> is_word L c)
           \<and> \<not> (case head (drop (length key) t) of None \<Rightarrow> False | Some c \<Rightarrow> is_word L c)"
proof (cases "prefix key t")
  case False
  then show ?thesis by (simp add: match_word_def)
next
  case True
  with assms(1) obtain zs where "t = hd key # tl key @ zs"
    by (cases key) (auto simp: prefix_def)
  then have "head t = Some (hd key)" by (metis head_def list.simps(5))
  with True assms show ?thesis by (simp add: match_word_def boundary_def)
qed

lemma bex_upto_Suc:
  "(\<exists>i \<in> {0..Suc n}. P i) \<longleftrightarrow> P 0 \<or> (\<exists>j \<in> {0..n}. P (Suc j))"
proof
  assume "\<exists>i \<in> {0..Suc n}. P i"
  then obtain i where i: "i \<le> Suc n" "P i" by auto
  show "P 0 \<or> (\<exists>j \<in> {0..n}. P (Suc j))"
  proof (cases i)
    case 0
    with i show ?thesis by simp
  next
    case (Suc j)
    with i have "j \<in> {0..n}" "P (Suc j)" by simp_all
    then show ?thesis by blast
  qed
next
  assume "P 0 \<or> (\<exists>j \<in> {0..n}. P (Suc j))"
  then show "\<exists>i \<in> {0..Suc n}. P i" by auto
qed

lemma search_word_positions:
  assumes "key \<noteq> []" and "is_word L (hd key)" and "is_word L (last key)"
  shows "search_word L key prev t \<longleftrightarrow>
           (\<exists>i \<in> {0..length t}.
              prefix key (drop i t)
              \<and> \<not> (case (if i = 0 then prev else Some (t ! (i - 1))) of
                       None \<Rightarrow> False | Some c \<Rightarrow> is_word L c)
              \<and> \<not> (case head (drop (i + length key) t) of
                       None \<Rightarrow> False | Some c \<Rightarrow> is_word L c))"
proof (induction t arbitrary: prev)
  case Nil
  show ?case by (simp add: match_word_letters [OF assms])
next
  case (Cons c cs)
  have "search_word L key prev (c # cs) \<longleftrightarrow>
          match_word L key prev (c # cs) \<or> search_word L key (Some c) cs"
    by simp
  also have "\<dots> \<longleftrightarrow>
      (prefix key (c # cs)
        \<and> \<not> (case prev of None \<Rightarrow> False | Some c \<Rightarrow> is_word L c)
        \<and> \<not> (case head (drop (length key) (c # cs)) of None \<Rightarrow> False | Some c \<Rightarrow> is_word L c))
      \<or> (\<exists>j \<in> {0..length cs}.
            prefix key (drop j cs)
            \<and> \<not> (case (if j = 0 then Some c else Some (cs ! (j - 1))) of
                     None \<Rightarrow> False | Some c \<Rightarrow> is_word L c)
            \<and> \<not> (case head (drop (j + length key) cs) of
                     None \<Rightarrow> False | Some c \<Rightarrow> is_word L c))"
    by (simp only: match_word_letters [OF assms] Cons.IH)
  also have "\<dots> \<longleftrightarrow>
      (\<exists>i \<in> {0..Suc (length cs)}.
              prefix key (drop i (c # cs))
              \<and> \<not> (case (if i = 0 then prev else Some ((c # cs) ! (i - 1))) of
                       None \<Rightarrow> False | Some c \<Rightarrow> is_word L c)
              \<and> \<not> (case head (drop (i + length key) (c # cs)) of
                       None \<Rightarrow> False | Some c \<Rightarrow> is_word L c))"
    by (subst bex_upto_Suc) (simp add: nth_Cons')
  finally show ?case by simp
qed

lemma search_word_occurs:
  assumes "key \<noteq> []" and "is_word L (hd key)" and "is_word L (last key)"
  shows "search_word L key None t \<longleftrightarrow> occurs_as_word L key t"
proof -
  have "(prefix key (drop i t)
         \<and> \<not> (case (if i = 0 then None else Some (t ! (i - 1))) of
                  None \<Rightarrow> False | Some c \<Rightarrow> is_word L c)
         \<and> \<not> (case head (drop (i + length key) t) of None \<Rightarrow> False | Some c \<Rightarrow> is_word L c))
        \<longleftrightarrow> whole_word_at L key t i" if "i \<in> {0..length t}" for i
    using that by (auto simp: prefix_take head_drop whole_word_at_def)
  then show ?thesis
    unfolding search_word_positions [OF assms] occurs_as_word_def by blast
qed

lemma first_city_find:
  "first_city L t cs
     = (case find (\<lambda>(key, proper). search_word L key None t) cs of
          None \<Rightarrow> [] | Some (key, proper) \<Rightarrow> proper)"
  by (induction cs) auto

lemma cities_letters:
  "(key, proper) \<in> set cities \<Longrightarrow> key \<noteq> [] \<and> is_word L (hd key) \<and> is_word L (last key)"
  by (auto simp: cities_def ascii_def is_word_def)

lemma find_cities:
  "find (\<lambda>(key, proper). search_word L key None t) cities
     = find (\<lambda>(key, proper). occurs_as_word L key t) cities"
proof (rule find_cong)
  fix x assume x: "x \<in> set cities"
  obtain key proper where kp: "x = (key, proper)" by (cases x)
  from x kp cities_letters [of key proper L]
  have "search_word L key None t \<longleftrightarrow> occurs_as_word L key t"
    by (simp add: search_word_occurs)
  with kp show "(case x of (key, proper) \<Rightarrow> search_word L key None t)
      = (case x of (key, proper) \<Rightarrow> occurs_as_word L key t)"
    by simp
qed simp

section \<open>Running the examples\<close>

lemmas norm_defs = strip_html_def strip_def unescape_def ascii_def is_space_def charref_group_def
  opt_semi_def is_digit_def is_hexdigit_def is_name_char_def replace_charref_def numeric_charref_def
  sample_lib_def sample_html5_def int_base_def int_decimal_def rstrip_semi_def digit_val_def
  invalid_charrefs_def invalid_codepoint_def

lemmas locate_defs = latest_who_is_hiring_story_id_def fetch_thread_comments_def thread_world_def
  hiring_hit_def pick_story_def object_id_def pat_at_def ci_eq_def thread_comments_def
  sample_lib_def ascii_def is_space_def int_base_def digit_val_def is_digit_def

lemmas filter_defs = matches_terms_def matches_location_def lower_def ascii_lower_def
  strip_def is_space_def ascii_def

lemmas extract_defs = build_job_def extract_company_and_title_def first_line_def is_linebreak_def
  rule_a_def rule_b_def is_dash_def is_paren_def extract_location_def cities_def match_word_def
  boundary_def head_def is_word_def format_id_def str_int_def lower_def ascii_lower_def
  strip_def is_space_def ascii_def field_def

lemma ascii_Nil_iff: "ascii s = [] \<longleftrightarrow> s = []"
  by (simp add: ascii_def)

lemma thread_world_comments: "thread_comments sample_lib (thread_world cs) = cs"
  by (simp add: locate_defs)

lemma is_comment_a_comment: "is_comment (a_comment i s)"
  by (simp add: is_comment_def a_comment_def field_def ascii_def)

lemma comment_text_a_comment:
  "s \<noteq> [] \<Longrightarrow> comment_text L (a_comment i s) = strip_html L s"
  by (simp add: comment_text_def a_comment_def field_def ascii_def)

lemma text_acme: "comment_text sample_lib acme = Inr (ascii ''Acme - Engineer, Remote'')"
  by (simp add: acme_def comment_text_a_comment ascii_def) (simp add: norm_defs)

lemma text_globex: "comment_text sample_lib globex = Inr (ascii ''Globex | Designer | Boston'')"
  by (simp add: globex_def comment_text_a_comment ascii_def) (simp add: norm_defs)

lemma build_acme:
  "build_job sample_lib location acme (ascii ''Acme - Engineer, Remote'')
     = Inr (job_acme (case location of
                        None \<Rightarrow> ascii ''Remote''
                      | Some l \<Rightarrow> if l \<noteq> [] then l else ascii ''Remote''))"
  by (cases location)
     (simp_all add: acme_def a_comment_def job_acme_def extract_defs digits.simps)

lemma build_globex:
  "build_job sample_lib location globex (ascii ''Globex | Designer | Boston'')
     = Inr (job_globex (case location of
                          None \<Rightarrow> ascii ''Boston''
                        | Some l \<Rightarrow> if l \<noteq> [] then l else ascii ''Boston''))"
  by (cases location)
     (simp_all add: globex_def a_comment_def job_globex_def extract_defs digits.simps)

lemma node_job_comment:
  "is_comment c \<Longrightarrow>
     node_job L terms location c
       = (case comment_text L c of
            Inl e \<Rightarrow> Inl e
          | Inr nt \<Rightarrow>
              if nt = [] then Inr None
              else if \<not> matches_terms L nt terms then Inr None
              else if \<not> matches_location L nt location then Inr None
              else (case build_job L location c nt of
                      Inl e \<Rightarrow> Inl e
                    | Inr job \<Rightarrow> Inr (Some job)))"
  by (simp add: node_job_def is_comment_get) (simp add: is_comment_def)

lemma is_comment_examples:
  "is_comment acme" "is_comment globex" "is_comment twin" "is_comment blank"
  "is_comment dotted" "is_comment long_comment" "is_comment nameless"
  by (simp_all add: acme_def globex_def twin_def blank_def dotted_def long_comment_def
      is_comment_a_comment)
     (simp add: nameless_def is_comment_def field_def ascii_def)

lemma keeps_acme: "keeps sample_lib [] None acme"
  by (simp add: keeps_def text_acme is_comment_examples) (simp add: filter_defs)

lemma keeps_globex: "keeps sample_lib [] None globex"
  by (simp add: keeps_def text_globex is_comment_examples) (simp add: filter_defs)

lemma node_acme: "node_job sample_lib [] None acme = Inr (Some (job_acme (ascii ''Remote'')))"
  using keeps_acme by (rule keeps_node_job) (simp add: text_acme build_acme)

lemma node_globex:
  "node_job sample_lib [] None globex = Inr (Some (job_globex (ascii ''Boston'')))"
  using keeps_globex by (rule keeps_node_job) (simp add: text_globex build_globex)

lemma run_both:
  "yc_search sample_lib (thread_world [acme, globex]) [] None 50
     = Inr [job_acme (ascii ''Remote''), job_globex (ascii ''Boston'')]"
  by (simp add: yc_search_loop thread_world_comments node_acme node_globex)

section \<open>Nodes that end the search\<close>

text \<open>
  The loop has no handler of its own: a node that is neither empty nor an object, a comment
  whose text is no string, and a comment with a decimal character reference longer than
  the interpreter converts each end the search with an exception.
\<close>

lemma aborting_nodes:
  "truthy c \<Longrightarrow> (\<forall>kvs. c \<noteq> JObj kvs) \<Longrightarrow> node_job L terms location c = Inl AttributeError"
  "is_comment c \<Longrightarrow> field c (ascii ''text'') = JInt n \<Longrightarrow> n \<noteq> 0
     \<Longrightarrow> node_job L terms location c = Inl TypeError"
  by (cases c; simp add: node_job_def get_def)
     (simp add: node_job_comment comment_text_def)

lemma takeWhile_replicate_append:
  "P c \<Longrightarrow> (case ys of [] \<Rightarrow> True | y # _ \<Rightarrow> \<not> P y)
     \<Longrightarrow> takeWhile P (replicate n c @ ys) = replicate n c"
  by (induction n) (auto split: list.splits)

lemma long_reference_raises:
  assumes "0 < max_str_digits L" and "max_str_digits L < n"
  shows "strip_html L (ascii ''&#'' @ replicate n 49 @ ascii '';'') = Inl ValueError"
proof -
  let ?ds = "replicate n (49::nat)"
  from assms have n: "0 < n" by simp
  have tw: "takeWhile is_digit (?ds @ [59]) = ?ds"
    by (rule takeWhile_replicate_append) (simp_all add: is_digit_def)
  from n have g: "charref_group (35 # ?ds @ [59]) = Some (35 # ?ds @ [59])"
    by (simp add: charref_group_def tw opt_semi_def)
  have "dropWhile (\<lambda>c. c = 59) ?ds = ?ds"
    by (cases n) simp_all
  then have "rstrip_semi (?ds @ [59]) = ?ds"
    by (simp add: rstrip_semi_def)
  with assms have "int_decimal L (rstrip_semi (?ds @ [59])) = Inl ValueError"
    by (simp add: int_decimal_def)
  moreover from n have "take 1 ?ds = [49]" by (cases n) simp_all
  ultimately have r: "replace_charref L (35 # ?ds @ [59]) = Inl ValueError"
    by (simp add: replace_charref_def)
  have "sub_charref L (38 # 35 # ?ds @ [59]) = Inl ValueError"
    by (simp add: g r)
  moreover have "sub_tags (38 # 35 # ?ds @ [59]) = 38 # 35 # ?ds @ [59]"
    by (rule sub_tags_no_lt) simp
  ultimately show ?thesis
    by (simp add: strip_html_def unescape_def ascii_def)
qed

section \<open>A comment longer than a description\<close>

lemma single_spaced_replicate:
  "\<not> is_space c \<Longrightarrow> single_spaced (replicate n c @ ys) = single_spaced ys"
  by (induction n) simp_all

lemma first_sentence_plain: "46 \<notin> set s \<Longrightarrow> first_sentence s = s"
  by (induction s) auto

lemma split_on_plain: "\<forall>c \<in> set s. \<not> P c \<Longrightarrow> split_on P s = [s]"
  by (induction s) simp_all

lemma rule_a_plain: "\<forall>c \<in> set s. \<not> is_dash c \<Longrightarrow> rule_a s = None"
proof -
  assume "\<forall>c \<in> set s. \<not> is_dash c"
  then have tw: "takeWhile (\<lambda>c. \<not> is_dash c) s = s" by (simp add: takeWhile_eq_all_conv)
  have t: "length (takeWhile (\<lambda>c. \<not> is_dash c) s) = length s" by (simp only: tw)
  show ?thesis by (simp add: rule_a_def Let_def t)
qed

lemma rule_b_plain: "\<forall>c \<in> set s. \<not> is_paren c \<Longrightarrow> rule_b s = None"
proof -
  assume "\<forall>c \<in> set s. \<not> is_paren c"
  then have tw: "takeWhile (\<lambda>c. \<not> is_paren c) s = s" by (simp add: takeWhile_eq_all_conv)
  have t: "length (takeWhile (\<lambda>c. \<not> is_paren c) s) = length s" by (simp only: tw)
  show ?thesis by (simp add: rule_b_def Let_def t)
qed

lemma set_long_text: "set long_text = {97, 32, 114, 101, 109, 111, 116}"
  by (auto simp: long_text_def ascii_def)

lemma not_space_a: "\<not> is_space 97"
  by (simp add: is_space_def)

lemma long_text_ends: "long_text \<noteq> []" "hd long_text = 97" "last long_text = 101"
  by (simp_all add: long_text_def ascii_def)

lemma single_spaced_long_text: "single_spaced long_text"
  by (simp add: long_text_def single_spaced_replicate not_space_a)
     (simp add: ascii_def is_space_def)

lemma strip_long_text: "strip long_text = long_text"
  by (rule strip_plain) (simp_all add: long_text_ends is_space_def)

lemma text_long: "comment_text L long_comment = Inr long_text"
proof -
  have "strip_html L long_text = Inr long_text"
    by (rule strip_html_plain)
       (simp_all add: set_long_text single_spaced_long_text long_text_ends is_space_def)
  then show ?thesis
    by (simp add: long_comment_def comment_text_a_comment long_text_ends)
qed

lemma lower_long_text: "lower L long_text = long_text"
proof -
  have "list_all (\<lambda>c. c < 128) long_text"
    by (simp add: list_all_iff set_long_text)
  moreover have "map ascii_lower long_text = long_text"
    by (simp add: long_text_def ascii_def ascii_lower_def)
  ultimately show ?thesis by (simp add: lower_def)
qed

lemma lower_Remote: "lower L (strip (ascii ''Remote'')) = ascii ''remote''"
  by (simp add: lower_def strip_def ascii_def is_space_def ascii_lower_def)

lemma keeps_long: "keeps L [] (Some (ascii ''Remote'')) long_comment"
proof -
  have "str_in (ascii ''remote'') long_text"
    unfolding long_text_def by (rule str_in_append) (simp add: ascii_def)
  moreover have "ascii ''Remote'' \<noteq> []" by (simp add: ascii_def)
  moreover have "is_comment long_comment"
    by (simp add: long_comment_def is_comment_a_comment)
  ultimately show ?thesis
    by (simp add: keeps_def text_long matches_terms_def matches_location_supplied lower_Remote
        lower_long_text long_text_ends)
qed

lemma title_long: "extract_company_and_title long_text = Inr ([], replicate 120 97)"
proof -
  have "first_sentence long_text = long_text"
    by (rule first_sentence_plain) (simp add: set_long_text)
  moreover have "first_line long_text = Inr long_text"
    by (simp add: first_line_def long_text_ends takeWhile_eq_all_conv set_long_text
        is_linebreak_def)
  moreover have "rule_a long_text = None"
    by (rule rule_a_plain) (simp add: set_long_text is_dash_def)
  moreover have "rule_b long_text = None"
    by (rule rule_b_plain) (simp add: set_long_text is_paren_def)
  moreover have "split_on (\<lambda>c. c = 44 \<or> c = 124) long_text = [long_text]"
    by (rule split_on_plain) (simp add: set_long_text)
  moreover have "take 120 long_text = replicate 120 97"
    by (simp add: long_text_def)
  ultimately show ?thesis
    by (simp add: extract_company_and_title_def long_text_ends strip_long_text)
qed

lemma build_long:
  "build_job L (Some (ascii ''Remote'')) long_comment long_text = Inr long_job"
proof -
  have "take 800 long_text = replicate 800 97"
    by (simp add: long_text_def)
  moreover have "ascii ''Remote'' \<noteq> []" by (simp add: ascii_def)
  ultimately show ?thesis
    by (simp add: build_job_def title_long long_job_def)
       (simp add: long_comment_def a_comment_def field_def format_id_def str_int_def
          digits.simps ascii_def)
qed

lemma node_long:
  "node_job L [] (Some (ascii ''Remote'')) long_comment = Inr (Some long_job)"
  using keeps_long [of L] by (rule keeps_node_job) (simp add: text_long build_long)

lemma description_long: "\<not> str_in (ascii ''remote'') (lower L (p_description long_job))"
proof
  have "lower L (replicate 800 97) = replicate 800 97"
    by (simp add: lower_def list_all_iff ascii_lower_def)
  moreover assume "str_in (ascii ''remote'') (lower L (p_description long_job))"
  ultimately have "str_in (ascii ''remote'') (replicate 800 97)"
    by (simp add: long_job_def)
  from str_in_set [OF this] show False by (simp add: ascii_def)
qed

section \<open>More runs of the examples\<close>

lemma node_boston:
  "node_job sample_lib [] (Some (ascii ''Boston'')) acme = Inr None"
  "node_job sample_lib [] (Some (ascii ''Boston'')) globex
     = Inr (Some (job_globex (ascii ''Boston'')))"
  by (simp_all add: node_job_comment is_comment_examples text_acme text_globex build_globex)
     (simp_all add: filter_defs)

lemma text_sample_markup:
  "strip_html sample_lib sample_markup = Inr (ascii ''AT&T and R&D, pay < 200k'')"
  by (simp add: sample_markup_def norm_defs)

lemma sample_markup_unchanged:
  "unescape sample_lib (sub_tags (ascii ''AT&T and R&D, pay < 200k''))
     = Inr (ascii ''AT&T and R&D, pay < 200k'')"
  by (simp add: norm_defs)

lemma text_twin: "comment_text sample_lib twin = Inr (ascii ''Globex | Designer | Boston'')"
  by (simp add: twin_def comment_text_a_comment ascii_def) (simp add: norm_defs)

lemma build_twin:
  "build_job sample_lib None twin (ascii ''Globex | Designer | Boston'') = Inr job_twin"
  by (simp add: twin_def a_comment_def job_twin_def job_globex_def extract_defs)

lemma node_twin: "node_job sample_lib [] None twin = Inr (Some job_twin)"
  by (simp add: node_job_comment is_comment_examples text_twin build_twin)
     (simp add: filter_defs)

lemma text_nameless:
  "comment_text sample_lib nameless = Inr (ascii ''Acme - Engineer, Remote'')"
  by (simp add: nameless_def comment_text_def field_def ascii_def) (simp add: norm_defs)

lemma build_nameless:
  "build_job sample_lib None nameless (ascii ''Acme - Engineer, Remote'') = Inr job_nameless"
  by (simp add: nameless_def job_nameless_def job_acme_def extract_defs)

lemma node_nameless: "node_job sample_lib [] None nameless = Inr (Some job_nameless)"
  by (simp add: node_job_comment is_comment_examples text_nameless build_nameless)
     (simp add: filter_defs)

lemma text_blank: "comment_text sample_lib blank = Inr []"
  by (simp add: blank_def comment_text_a_comment ascii_def) (simp add: norm_defs)

lemma text_dotted:
  "comment_text sample_lib dotted = Inr (ascii ''. NET developers wanted'')"
  by (simp add: dotted_def comment_text_a_comment ascii_def) (simp add: norm_defs)

lemma keeps_dotted: "keeps sample_lib [] None dotted"
  by (simp add: keeps_def text_dotted is_comment_examples) (simp add: filter_defs)

lemma build_dotted:
  "build_job sample_lib None dotted (ascii ''. NET developers wanted'') = Inl IndexError"
  by (simp add: build_job_def extract_company_and_title_def first_line_def ascii_def)

lemma node_dotted: "node_job sample_lib [] None dotted = Inl IndexError"
  using keeps_dotted by (rule keeps_node_job) (simp add: text_dotted build_dotted)

section \<open>The claims\<close>

text \<open>
  C1. As stated, the claim fails: the location filter reads the whole normalized text of a
  comment, while the description keeps its first 800 characters only, so that the word
  that made the comment pass can be cut off. Here the location is \<open>Remote\<close>, the text is
  800 letters followed by \<open>remote\<close>, and the description of the posting returned does not
  contain \<open>remote\<close>.
\<close>

theorem description_truncated_counterexample:
  "yc_search sample_lib (thread_world [long_comment]) [] (Some (ascii ''Remote'')) 50
     = Inr [long_job]
   \<and> lower sample_lib (ascii ''Remote'') = ascii ''remote''
   \<and> \<not> sublist (ascii ''remote'') (lower sample_lib (p_description long_job))"
proof -
  have "yc_search sample_lib (thread_world [long_comment]) [] (Some (ascii ''Remote'')) 50
          = Inr [long_job]"
    by (simp add: yc_search_loop thread_world_comments node_long)
  moreover have "lower sample_lib (ascii ''Remote'') = ascii ''remote''"
    by (simp add: lower_def ascii_def ascii_lower_def)
  ultimately show ?thesis
    using description_long [of sample_lib] by (simp add: str_in_sublist)
qed

text \<open>
  C1, amended. When a non-empty location is supplied, every posting returned has exactly
  that location, and its description is the first 800 characters of the normalized text of
  a comment of the thread; that text, lowercased, contains the supplied location stripped
  of surrounding white space and lowercased (which is \<open>remote\<close> when the location is
  \<open>Remote\<close> in any case).
\<close>

theorem yc_search_location_override:
  assumes "yc_search L w terms (Some l) limit = Inr ps" and "l \<noteq> []" and "p \<in> set ps"
  shows "p_location p = l \<and>
         (\<exists>c text. c \<in> set (thread_comments L w) \<and> comment_text L c = Inr text
               \<and> p_description p = take 800 text
               \<and> sublist (lower L (strip l)) (lower L text))"
proof -
  from assms(1) have "yc_loop L terms (Some l) limit [] (thread_comments L w) = Inr ps"
    by (simp add: yc_search_loop)
  from yc_loop_origin [OF this assms(3)]
  obtain c where c: "c \<in> set (thread_comments L w)"
      "node_job L terms (Some l) c = Inr (Some p)"
    by auto
  from node_job_Some [OF c(2)] obtain nt where nt: "comment_text L c = Inr nt"
      "matches_location L nt (Some l)" "build_job L (Some l) c nt = Inr p"
    by auto
  from nt(2) assms(2) have "sublist (lower L (strip l)) (lower L nt)"
    by (simp add: matches_location_supplied str_in_sublist)
  with c(1) nt(1) build_job_fields [OF nt(3)] assms(2) show ?thesis by auto
qed

theorem yc_search_location_override_witness:
  "yc_search sample_lib (thread_world [acme, globex]) [] (Some (ascii ''Boston'')) 50
     = Inr [job_globex (ascii ''Boston'')]
   \<and> ascii ''Boston'' \<noteq> []
   \<and> job_globex (ascii ''Boston'') \<in> set [job_globex (ascii ''Boston'')]
   \<and> p_location (job_globex (ascii ''Boston'')) = ascii ''Boston''
   \<and> (\<exists>c nt. c \<in> set (thread_comments sample_lib (thread_world [acme, globex]))
           \<and> comment_text sample_lib c = Inr nt
           \<and> p_description (job_globex (ascii ''Boston'')) = take 800 nt
           \<and> sublist (lower sample_lib (strip (ascii ''Boston''))) (lower sample_lib nt))"
proof -
  have run: "yc_search sample_lib (thread_world [acme, globex]) []
               (Some (ascii ''Boston'')) 50 = Inr [job_globex (ascii ''Boston'')]"
    by (simp add: yc_search_loop thread_world_comments node_boston)
  have ne: "ascii ''Boston'' \<noteq> []" by (simp add: ascii_def)
  have mem: "job_globex (ascii ''Boston'') \<in> set [job_globex (ascii ''Boston'')]" by simp
  from yc_search_location_override [OF run ne mem] run ne mem show ?thesis by blast
qed

text \<open>
  C2. As stated, the claim fails: entities are decoded after tags are removed, so that the
  result can hold a tag (or an entity) that a second pass removes (or decodes).
  \<open>&lt;b&gt;\<close> normalizes to \<open><b>\<close>, and \<open><b>\<close> normalizes to the empty string.
\<close>

theorem strip_html_not_idempotent_counterexample:
  "strip_html sample_lib (ascii ''&lt;b&gt;'') = Inr (ascii ''<b>'')
   \<and> strip_html sample_lib (ascii ''<b>'') = Inr []
   \<and> strip_html sample_lib (ascii ''<b>'') \<noteq> Inr (ascii ''<b>'')"
proof -
  have 1: "strip_html sample_lib (ascii ''&lt;b&gt;'') = Inr (ascii ''<b>'')"
    by (simp add: norm_defs)
  have 2: "strip_html sample_lib (ascii ''<b>'') = Inr []"
    by (simp add: norm_defs)
  from 1 2 show ?thesis by (simp add: ascii_def)
qed

text \<open>
  C2, amended. A normalized text is a fixed point of the normalizer whenever the first two
  steps, the removal of tags and the decoding of entities, leave it as it is; the
  white-space steps never change a normalized text. Such is every normalized text without
  \<open><\<close> and \<open>&\<close> (\<open>plain_text_unchanged\<close> above), and such is a text like
  \<open>AT&T and R&D, pay < 200k\<close>, whose ampersands start no reference and whose \<open><\<close> starts
  no tag.
\<close>

theorem strip_html_fixed_point:
  assumes "strip_html L x = Inr y" and "unescape L (sub_tags y) = Inr y"
  shows "strip_html L y = Inr y"
proof -
  from assms(1) have "single_spaced y" and "strip y = y"
    by (rule strip_html_normal)+
  moreover from \<open>single_spaced y\<close> have "sub_spaces y = y"
    by (rule sub_spaces_single_spaced)
  ultimately show ?thesis
    using assms(2) by (simp add: strip_html_def)
qed

theorem strip_html_fixed_point_witness:
  "strip_html sample_lib sample_markup = Inr (ascii ''AT&T and R&D, pay < 200k'')
   \<and> unescape sample_lib (sub_tags (ascii ''AT&T and R&D, pay < 200k''))
       = Inr (ascii ''AT&T and R&D, pay < 200k'')
   \<and> strip_html sample_lib (ascii ''AT&T and R&D, pay < 200k'')
       = Inr (ascii ''AT&T and R&D, pay < 200k'')"
  using strip_html_fixed_point [OF text_sample_markup sample_markup_unchanged]
    text_sample_markup sample_markup_unchanged
  by simp

text \<open>
  C3. As stated, the claim fails: the id of a posting is the identifier of its comment as
  \<open>str\<close> prints it, and the loop compares no identifiers. The integer 1 and the string
  \<open>"1"\<close> are different identifiers; both postings get the id \<open>hn_1\<close>.
\<close>

theorem duplicate_ids_counterexample:
  "field acme (ascii ''id'') = JInt 1 \<and> field twin (ascii ''id'') = JStr (ascii ''1'')
   \<and> yc_search sample_lib (thread_world [acme, twin]) [] None 50
       = Inr [job_acme (ascii ''Remote''), job_twin]
   \<and> p_id (job_acme (ascii ''Remote'')) = p_id job_twin
   \<and> \<not> distinct (map p_id [job_acme (ascii ''Remote''), job_twin])"
  by (simp add: yc_search_loop thread_world_comments node_acme node_twin)
     (simp add: job_acme_def job_twin_def acme_def twin_def a_comment_def field_def ascii_def)

text \<open>
  C3, amended. If the identifiers of the comments of the thread print pairwise differently
  (as they do when they are integers, at most one of them missing, and pairwise distinct),
  the ids of the postings returned are pairwise distinct.
\<close>

theorem distinct_ids:
  assumes "yc_search L w terms location limit = Inr ps"
    and "distinct (map (printed_id L) (filter is_comment (thread_comments L w)))
         \<or> (\<forall>c \<in> set (filter is_comment (thread_comments L w)).
               integer_or_missing (field c (ascii ''id'')))
           \<and> distinct (map (\<lambda>c. field c (ascii ''id''))
                         (filter is_comment (thread_comments L w)))"
  shows "distinct (map p_id ps)"
proof -
  let ?cs = "filter is_comment (thread_comments L w)"
  from assms(2) have printed: "distinct (map (printed_id L) ?cs)"
    using distinct_integer_ids [of ?cs L] by blast
  from assms(1) have "yc_loop L terms location limit [] (thread_comments L w) = Inr ps"
    by (simp add: yc_search_loop)
  from yc_loop_ids [OF this] obtain ks where ks: "subseq ks ?cs"
    and ids: "map p_id ps = map (\<lambda>c. ascii ''hn_'' @ printed_id L c) ks"
    by auto
  from ks have "subseq (map (printed_id L) ks) (map (printed_id L) ?cs)"
    by (rule subseq_map)
  from this printed have "distinct (map (printed_id L) ks)" by (rule subseq_keeps_distinct)
  then have "distinct (map ((@) (ascii ''hn_'')) (map (printed_id L) ks))"
    by (simp only: distinct_map) (simp add: inj_on_def)
  with ids show ?thesis by (simp add: comp_def)
qed

theorem distinct_ids_witness:
  "yc_search sample_lib (thread_world [acme, globex]) [] None 50
     = Inr [job_acme (ascii ''Remote''), job_globex (ascii ''Boston'')]
   \<and> filter is_comment (thread_comments sample_lib (thread_world [acme, globex]))
       = [acme, globex]
   \<and> integer_or_missing (field acme (ascii ''id''))
   \<and> integer_or_missing (field globex (ascii ''id''))
   \<and> distinct (map (\<lambda>c. field c (ascii ''id'')) [acme, globex])
   \<and> distinct (map p_id [job_acme (ascii ''Remote''), job_globex (ascii ''Boston'')])"
proof -
  have f: "filter is_comment (thread_comments sample_lib (thread_world [acme, globex]))
             = [acme, globex]"
    by (simp add: thread_world_comments is_comment_examples)
  have i: "integer_or_missing (field acme (ascii ''id''))"
      "integer_or_missing (field globex (ascii ''id''))"
    and d: "distinct (map (\<lambda>c. field c (ascii ''id'')) [acme, globex])"
    by (simp_all add: acme_def globex_def a_comment_def field_def ascii_def
        integer_or_missing_def)
  from i d f
  have "distinct (map (printed_id sample_lib)
                   (filter is_comment (thread_comments sample_lib (thread_world [acme, globex]))))
        \<or> (\<forall>c \<in> set (filter is_comment
                           (thread_comments sample_lib (thread_world [acme, globex]))).
              integer_or_missing (field c (ascii ''id'')))
          \<and> distinct (map (\<lambda>c. field c (ascii ''id''))
                        (filter is_comment
                          (thread_comments sample_lib (thread_world [acme, globex]))))"
    by simp
  from distinct_ids [OF run_both this] run_both f i d show ?thesis by simp
qed

text \<open>
  C4. As stated, the claim fails: the loop reads the identifier of a comment only to print
  it, so a comment without identifier is not skipped. Its posting has the id \<open>hn_None\<close>.
\<close>

theorem missing_id_not_skipped_counterexample:
  "field nameless (ascii ''id'') = JNull
   \<and> yc_search sample_lib (thread_world [nameless]) [] None 50 = Inr [job_nameless]
   \<and> p_id job_nameless = ascii ''hn_None''"
  by (simp add: yc_search_loop thread_world_comments node_nameless)
     (simp add: job_nameless_def nameless_def field_def ascii_def)

text \<open>
  C4, amended. A node that is missing or empty, an object that is not of type \<open>comment\<close>,
  and a comment whose text is missing or empty after normalization contribute no posting
  and do not abort the search: the loop passes over such a node without raising, and the
  search returns what it returns for the thread without that node. A comment without
  identifier for which a posting is built gets the id \<open>hn_None\<close>.
\<close>

theorem skipped_node_leaves_search:
  assumes "skipped L node"
    and "thread_comments L w = before @ node # rest"
    and "thread_comments L w' = before @ rest"
  shows "yc_loop L terms location limit results [node] = Inr results
         \<and> yc_search L w terms location limit = yc_search L w' terms location limit
         \<and> (field c (ascii ''id'') = JNull \<longrightarrow> build_job L location c nt = Inr p
              \<longrightarrow> p_id p = ascii ''hn_None'')"
proof -
  have "p_id p = ascii ''hn_None''"
    if "field c (ascii ''id'') = JNull" and "build_job L location c nt = Inr p"
    using build_job_fields(1) [OF that(2)] that(1)
    by (simp add: printed_id_def format_id_def ascii_def)
  with assms show ?thesis by (simp add: yc_search_loop yc_loop_skip skipped_node_job)
qed

theorem skipped_node_leaves_search_witness:
  "skipped sample_lib blank
   \<and> thread_comments sample_lib (thread_world [acme, blank, globex]) = [acme] @ blank # [globex]
   \<and> thread_comments sample_lib (thread_world [acme, globex]) = [acme] @ [globex]
   \<and> yc_loop sample_lib [] None 50 [job_acme (ascii ''Remote'')] [blank]
       = Inr [job_acme (ascii ''Remote'')]
   \<and> yc_search sample_lib (thread_world [acme, blank, globex]) [] None 50
       = yc_search sample_lib (thread_world [acme, globex]) [] None 50
   \<and> yc_search sample_lib (thread_world [acme, blank, globex]) [] None 50
       = Inr [job_acme (ascii ''Remote''), job_globex (ascii ''Boston'')]
   \<and> field nameless (ascii ''id'') = JNull
   \<and> build_job sample_lib None nameless (ascii ''Acme - Engineer, Remote'') = Inr job_nameless
   \<and> p_id job_nameless = ascii ''hn_None''"
proof -
  have s: "skipped sample_lib blank"
    unfolding skipped_def using text_blank by (simp add: blank_def a_comment_def)
  have a: "thread_comments sample_lib (thread_world [acme, blank, globex])
             = [acme] @ blank # [globex]"
    by (simp add: thread_world_comments)
  have b: "thread_comments sample_lib (thread_world [acme, globex]) = [acme] @ [globex]"
    by (simp add: thread_world_comments)
  have n: "field nameless (ascii ''id'') = JNull"
    by (simp add: nameless_def field_def ascii_def)
  from skipped_node_leaves_search [OF s a b, of "[]" None 50 "[job_acme (ascii ''Remote'')]"
      nameless "ascii ''Acme - Engineer, Remote''" job_nameless]
    s a b n run_both build_nameless
  show ?thesis by simp
qed

text \<open>
  C5. For a positive limit, the number of postings that \<open>yc_search\<close> returns is at most
  the limit, whatever the thread, the terms and the location are.
\<close>

theorem yc_search_at_most_limit:
  assumes "0 < limit" and "yc_search L w terms location limit = Inr ps"
  shows "int (length ps) \<le> limit"
  using assms yc_loop_length [of "[]" limit L terms location "thread_comments L w" ps]
  by (simp add: yc_search_loop)

theorem yc_search_at_most_limit_witness:
  "(0::int) < 1
   \<and> yc_search sample_lib (thread_world [acme, globex]) [] None 1
       = Inr [job_acme (ascii ''Remote'')]
   \<and> int (length [job_acme (ascii ''Remote'')]) \<le> 1"
  using yc_search_at_most_limit [of 1 sample_lib "thread_world [acme, globex]" "[]" None
      "[job_acme (ascii ''Remote'')]"]
  by (simp add: yc_search_loop thread_world_comments node_acme)

text \<open>
  C6. When the thread searches give no hit (the dated search answers with none, or it fails
  and the fallback search answers with none), the locator returns no thread and
  \<open>yc_search\<close> returns the empty list; it does not raise.
\<close>

theorem no_hits_empty_result:
  assumes "dated_search w = Inr [] \<or> (isl (dated_search w) \<and> fallback_search w = Inr [])"
  shows "latest_who_is_hiring_story_id L w = Inr None
         \<and> yc_search L w terms location limit = Inr []"
proof -
  have "pick_story L [] = None" by (simp add: pick_story_def)
  with assms have "latest_who_is_hiring_story_id L w = Inr None"
    by (auto simp: latest_who_is_hiring_story_id_def isl_def)
  then show ?thesis by (simp add: yc_search_def)
qed

theorem no_hits_empty_result_witness:
  "dated_search no_hits = Inr [] \<and> fallback_search no_hits = Inr []
   \<and> latest_who_is_hiring_story_id sample_lib no_hits = Inr None
   \<and> yc_search sample_lib no_hits [ascii ''python''] (Some (ascii ''Remote'')) 25 = Inr []"
proof -
  have d: "dated_search no_hits = Inr []" and f: "fallback_search no_hits = Inr []"
    by (simp_all add: no_hits_def)
  from d have "dated_search no_hits = Inr []
      \<or> (isl (dated_search no_hits) \<and> fallback_search no_hits = Inr [])" ..
  from no_hits_empty_result [OF this, of sample_lib "[ascii ''python'']" "Some (ascii ''Remote'')" 25]
    d f show ?thesis by simp
qed

text \<open>
  C7. \<open>_extract_location\<close> returns \<open>Remote\<close> if the lowercased text contains \<open>remote\<close>;
  otherwise the label of the first keyword of the list, in the order of the list, that
  occurs in the lowercased text as a whole word; otherwise the empty string.
\<close>

theorem extract_location_spec:
  "extract_location L text =
     (let t = lower L text
      in if sublist (ascii ''remote'') t then ascii ''Remote''
         else (case find (\<lambda>(key, proper). occurs_as_word L key t) cities of
                 None \<Rightarrow> []
               | Some (key, proper) \<Rightarrow> proper))
   \<and> cities =
       zip (map ascii [''san francisco'', ''sf'', ''new york'', ''nyc'', ''seattle'', ''austin'',
                       ''boston'', ''london'', ''berlin'', ''toronto''])
           (map ascii [''San Francisco'', ''San Francisco'', ''New York'', ''New York'',
                       ''Seattle'', ''Austin'', ''Boston'', ''London'', ''Berlin'', ''Toronto''])"
  by (simp add: extract_location_def Let_def str_in_sublist first_city_find find_cities)
     (simp add: cities_def)

theorem extract_location_spec_witness:
  "extract_location sample_lib (ascii ''Backend role in NYC or sf office'')
     = (let t = lower sample_lib (ascii ''Backend role in NYC or sf office'')
        in if sublist (ascii ''remote'') t then ascii ''Remote''
           else (case find (\<lambda>(key, proper). occurs_as_word sample_lib key t) cities of
                   None \<Rightarrow> []
                 | Some (key, proper) \<Rightarrow> proper))
   \<and> extract_location sample_lib (ascii ''Backend role in NYC or sf office'')
       = ascii ''San Francisco''"
proof -
  have "extract_location sample_lib (ascii ''Backend role in NYC or sf office'')
          = ascii ''San Francisco''"
    by (simp add: extract_defs sample_lib_def)
  with extract_location_spec [of sample_lib "ascii ''Backend role in NYC or sf office''"]
  show ?thesis by simp
qed

text \<open>
  C8. With no terms the term predicate holds of every text, and \<open>yc_search\<close> returns
  what the search without the term filter returns.
\<close>

theorem empty_terms_exclude_nothing:
  "matches_terms L text []
   \<and> yc_search L w [] location limit
       = loop_without_term_filter L location limit [] (thread_comments L w)"
  by (simp add: matches_terms_Nil yc_search_loop yc_loop_no_terms)

theorem empty_terms_exclude_nothing_witness:
  "matches_terms sample_lib (ascii ''Acme - Engineer, Remote'') []
   \<and> yc_search sample_lib (thread_world [acme, globex]) [] None 50
       = loop_without_term_filter sample_lib None 50 []
           (thread_comments sample_lib (thread_world [acme, globex]))
   \<and> yc_search sample_lib (thread_world [acme, globex]) [] None 50
       = Inr [job_acme (ascii ''Remote''), job_globex (ascii ''Boston'')]"
  using empty_terms_exclude_nothing [of sample_lib "ascii ''Acme - Engineer, Remote''"
      "thread_world [acme, globex]" None 50] run_both
  by simp

text \<open>
  C9. With a limit that is not positive the loop stops behind the first posting
  (\<open>yc_search_nonpositive_limit\<close> above: a search that returns, returns one posting). It
  need not return, though: a comment whose normalized text starts with a full stop and a
  space passes the four filters, and \<open>_extract_company_and_title\<close> then takes the first
  element of an empty list of lines. With limit 0 and such a comment the search raises
  \<open>IndexError\<close> where the claim has it return one posting.
\<close>

theorem limit_zero_index_error:
  "dotted \<in> set (thread_comments sample_lib (thread_world [dotted]))
   \<and> keeps sample_lib [] None dotted
   \<and> yc_search sample_lib (thread_world [dotted]) [] None 0 = Inl IndexError"
  by (simp add: yc_search_loop thread_world_comments keeps_dotted node_dotted)

text \<open>
  C10. A location of white space only counts as supplied: it matches every text (stripped
  and lowercased it is the empty string), and it is the location of every posting
  returned, character for character.
\<close>

theorem whitespace_location:
  assumes "l \<noteq> []" and "list_all is_space l"
  shows "matches_location L text (Some l)
         \<and> (\<forall>ps. yc_search L w terms (Some l) limit = Inr ps \<longrightarrow> (\<forall>p \<in> set ps. p_location p = l))"
proof -
  have "matches_location L text (Some l)"
    using assms by (simp add: matches_location_supplied strip_all_space lower_Nil str_in_Nil)
  moreover have "p_location p = l"
    if "yc_search L w terms (Some l) limit = Inr ps" and "p \<in> set ps" for ps p
  proof -
    from that(1) have "yc_loop L terms (Some l) limit [] (thread_comments L w) = Inr ps"
      by (simp add: yc_search_loop)
    from yc_loop_origin [OF this that(2)]
    obtain c where "node_job L terms (Some l) c = Inr (Some p)" by auto
    from node_job_Some [OF this] obtain nt where "build_job L (Some l) c nt = Inr p"
      by auto
    from build_job_fields(3) [OF this refl assms(1)] show ?thesis .
  qed
  ultimately show ?thesis by blast
qed

theorem whitespace_location_witness:
  "[32, 9] \<noteq> [] \<and> list_all is_space [32, 9]
   \<and> matches_location sample_lib (ascii ''Acme - Engineer, Remote'') (Some [32, 9])
   \<and> yc_search sample_lib (thread_world [acme, globex]) [] (Some [32, 9]) 50
       = Inr [job_acme [32, 9], job_globex [32, 9]]
   \<and> p_location (job_acme [32, 9]) = [32, 9] \<and> p_location (job_globex [32, 9]) = [32, 9]"
proof -
  have ne: "[32, 9] \<noteq> ([]::ustr)" by simp
  have ws: "list_all is_space [32, 9]" by (simp add: is_space_def)
  note th = whitespace_location [OF ne ws, of sample_lib _ "thread_world [acme, globex]" "[]" 50]
  have n: "node_job sample_lib [] (Some [32, 9]) acme = Inr (Some (job_acme [32, 9]))"
      "node_job sample_lib [] (Some [32, 9]) globex = Inr (Some (job_globex [32, 9]))"
    using th
    by (simp_all add: node_job_comment is_comment_examples text_acme text_globex build_acme
        build_globex matches_terms_def ascii_Nil_iff)
  have run: "yc_search sample_lib (thread_world [acme, globex]) [] (Some [32, 9]) 50
       = Inr [job_acme [32, 9], job_globex [32, 9]]"
    by (simp add: yc_search_loop thread_world_comments n)
  from th [of "ascii ''Acme - Engineer, Remote''"] run ws show ?thesis
    by (simp add: job_acme_def job_globex_def)
qed

end
